theory Spec2Isabelle
  imports Complex_Main
begin

section \<open>Floating-point values\<close>

text \<open>
  The C++ code computes with \<^verbatim>\<open>float\<close> and \<^verbatim>\<open>double\<close>. Both are embedded as one type
  \<open>fval\<close>: a finite value is an exact real number, and the three special values of
  IEEE-754 (the two infinities and not-a-number) are kept, because the comparisons,
  the division and the logarithm of the source behave differently on them.
  The embedding idealises three things: finite results are not rounded, finite results
  never overflow to an infinity, and there is no negative zero. The conversions between
  \<^verbatim>\<open>float\<close> and \<^verbatim>\<open>double\<close> are therefore the identity. The envelope detector, whose
  behaviour over many calls depends on the rounding, is embedded a second time with
  binary32 rounding, in a section of its own.
\<close>

datatype fval = Fin real | PInf | NInf | NaN

fun is_finite :: "fval \<Rightarrow> bool" where
  "is_finite (Fin x) = True"
| "is_finite _ = False"

fun fneg :: "fval \<Rightarrow> fval" where
  "fneg (Fin x) = Fin (- x)"
| "fneg PInf = NInf"
| "fneg NInf = PInf"
| "fneg NaN = NaN"

fun fabs :: "fval \<Rightarrow> fval" where
  "fabs (Fin x) = Fin \<bar>x\<bar>"
| "fabs PInf = PInf"
| "fabs NInf = PInf"
| "fabs NaN = NaN"

fun fadd :: "fval \<Rightarrow> fval \<Rightarrow> fval" where
  "fadd NaN _ = NaN"
| "fadd _ NaN = NaN"
| "fadd (Fin x) (Fin y) = Fin (x + y)"
| "fadd PInf NInf = NaN"
| "fadd NInf PInf = NaN"
| "fadd PInf _ = PInf"
| "fadd _ PInf = PInf"
| "fadd NInf _ = NInf"
| "fadd _ NInf = NInf"

definition fsub :: "fval \<Rightarrow> fval \<Rightarrow> fval" where
  "fsub a b = fadd a (fneg b)"

text \<open>The infinity with the sign of a non-zero real number.\<close>

definition signed_inf :: "real \<Rightarrow> fval" where
  "signed_inf s = (if 0 < s then PInf else NInf)"

fun fmul :: "fval \<Rightarrow> fval \<Rightarrow> fval" where
  "fmul NaN _ = NaN"
| "fmul _ NaN = NaN"
| "fmul (Fin x) (Fin y) = Fin (x * y)"
| "fmul (Fin x) PInf = (if x = 0 then NaN else signed_inf x)"
| "fmul (Fin x) NInf = (if x = 0 then NaN else signed_inf (- x))"
| "fmul PInf (Fin y) = (if y = 0 then NaN else signed_inf y)"
| "fmul NInf (Fin y) = (if y = 0 then NaN else signed_inf (- y))"
| "fmul PInf PInf = PInf"
| "fmul NInf NInf = PInf"
| "fmul PInf NInf = NInf"
| "fmul NInf PInf = NInf"

text \<open>
  Division: a finite non-zero value divided by zero is an infinity, and zero divided by
  zero is not-a-number (HOL's own \<open>x / 0 = 0\<close> must not leak into the model).
\<close>

fun fdiv :: "fval \<Rightarrow> fval \<Rightarrow> fval" where
  "fdiv NaN _ = NaN"
| "fdiv _ NaN = NaN"
| "fdiv (Fin x) (Fin y) =
     (if y = 0 then (if x = 0 then NaN else signed_inf x) else Fin (x / y))"
| "fdiv (Fin x) PInf = Fin 0"
| "fdiv (Fin x) NInf = Fin 0"
| "fdiv PInf (Fin y) = (if 0 \<le> y then PInf else NInf)"
| "fdiv NInf (Fin y) = (if 0 \<le> y then NInf else PInf)"
| "fdiv PInf PInf = NaN"
| "fdiv PInf NInf = NaN"
| "fdiv NInf PInf = NaN"
| "fdiv NInf NInf = NaN"

text \<open>Comparisons: every comparison with not-a-number is false.\<close>

fun flt :: "fval \<Rightarrow> fval \<Rightarrow> bool" where
  "flt NaN _ = False"
| "flt _ NaN = False"
| "flt (Fin x) (Fin y) = (x < y)"
| "flt (Fin x) PInf = True"
| "flt (Fin x) NInf = False"
| "flt PInf _ = False"
| "flt NInf (Fin y) = True"
| "flt NInf PInf = True"
| "flt NInf NInf = False"

fun fle :: "fval \<Rightarrow> fval \<Rightarrow> bool" where
  "fle NaN _ = False"
| "fle _ NaN = False"
| "fle (Fin x) (Fin y) = (x \<le> y)"
| "fle (Fin x) PInf = True"
| "fle (Fin x) NInf = False"
| "fle PInf (Fin y) = False"
| "fle PInf PInf = True"
| "fle PInf NInf = False"
| "fle NInf _ = True"

definition fgt :: "fval \<Rightarrow> fval \<Rightarrow> bool" where
  "fgt a b = flt b a"

definition fge :: "fval \<Rightarrow> fval \<Rightarrow> bool" where
  "fge a b = fle b a"

text \<open>The functions of \<^verbatim>\<open>math.h\<close> that the source calls.\<close>

fun flog10 :: "fval \<Rightarrow> fval" where
  "flog10 (Fin x) = (if x < 0 then NaN else if x = 0 then NInf else Fin (log 10 x))"
| "flog10 PInf = PInf"
| "flog10 NInf = NaN"
| "flog10 NaN = NaN"

text \<open>\<^verbatim>\<open>pow(10.0f, y)\<close>: the source raises no other base.\<close>

fun fpow10 :: "fval \<Rightarrow> fval" where
  "fpow10 (Fin y) = Fin (10 powr y)"
| "fpow10 PInf = PInf"
| "fpow10 NInf = Fin 0"
| "fpow10 NaN = NaN"

fun fexp :: "fval \<Rightarrow> fval" where
  "fexp (Fin y) = Fin (exp y)"
| "fexp PInf = PInf"
| "fexp NInf = Fin 0"
| "fexp NaN = NaN"

fun fsqrt :: "fval \<Rightarrow> fval" where
  "fsqrt (Fin x) = (if x < 0 then NaN else Fin (sqrt x))"
| "fsqrt PInf = PInf"
| "fsqrt NInf = NaN"
| "fsqrt NaN = NaN"

fun fcos :: "fval \<Rightarrow> fval" where
  "fcos (Fin x) = Fin (cos x)"
| "fcos _ = NaN"

fun fsin :: "fval \<Rightarrow> fval" where
  "fsin (Fin x) = Fin (sin x)"
| "fsin _ = NaN"

text \<open>\<^verbatim>\<open>atan2(y, x)\<close> on real numbers, with its value in \<open>(-pi, pi]\<close> and \<open>atan2(0, 0) = 0\<close>.\<close>

definition atan2_real :: "real \<Rightarrow> real \<Rightarrow> real" where
  "atan2_real y x =
     (if 0 < x then arctan (y / x)
      else if x < 0 then (if 0 \<le> y then arctan (y / x) + pi else arctan (y / x) - pi)
      else if 0 < y then pi / 2
      else if y < 0 then - (pi / 2)
      else 0)"

fun fatan2 :: "fval \<Rightarrow> fval \<Rightarrow> fval" where
  "fatan2 NaN _ = NaN"
| "fatan2 _ NaN = NaN"
| "fatan2 (Fin y) (Fin x) = Fin (atan2_real y x)"
| "fatan2 (Fin y) PInf = Fin 0"
| "fatan2 (Fin y) NInf = (if 0 \<le> y then Fin pi else Fin (- pi))"
| "fatan2 PInf (Fin x) = Fin (pi / 2)"
| "fatan2 NInf (Fin x) = Fin (- (pi / 2))"
| "fatan2 PInf PInf = Fin (pi / 4)"
| "fatan2 PInf NInf = Fin (3 * pi / 4)"
| "fatan2 NInf PInf = Fin (- (pi / 4))"
| "fatan2 NInf NInf = Fin (- (3 * pi / 4))"

section \<open>Configuration (config.h)\<close>

definition SAMPLE_RATE :: nat where
  "SAMPLE_RATE = 44100"

definition NUM_BANDS :: nat where
  "NUM_BANDS = 3"

definition FFT_SIZE :: nat where
  "FFT_SIZE = 512"

definition BAND_LIMITS :: "fval list" where
  "BAND_LIMITS = [Fin 250, Fin 1000, Fin 4000, Fin 8000]"

record BandParams =
  bp_threshold :: fval
  bp_ratio :: fval
  bp_knee_width :: fval
  bp_gain :: fval
  bp_attack_time :: fval
  bp_release_time :: fval

definition BAND_PARAMS :: "BandParams list" where
  "BAND_PARAMS =
     [\<lparr>bp_threshold = Fin (- 50), bp_ratio = Fin 2, bp_knee_width = Fin 10,
       bp_gain = Fin 15, bp_attack_time = Fin (10 / 1000), bp_release_time = Fin (100 / 1000)\<rparr>,
      \<lparr>bp_threshold = Fin (- 45), bp_ratio = Fin 3, bp_knee_width = Fin 8,
       bp_gain = Fin 10, bp_attack_time = Fin (5 / 1000), bp_release_time = Fin (50 / 1000)\<rparr>,
      \<lparr>bp_threshold = Fin (- 40), bp_ratio = Fin 4, bp_knee_width = Fin 6,
       bp_gain = Fin 5, bp_attack_time = Fin (3 / 1000), bp_release_time = Fin (25 / 1000)\<rparr>]"

section \<open>The band classifier (MultibandWDRC::getBandIndex)\<close>

text \<open>
  The source scans \<^verbatim>\<open>for (i = 0; i < NUM_BANDS; i++)\<close> and returns the first \<open>i\<close> with
  \<^verbatim>\<open>frequency >= BAND_LIMITS[i] && frequency < BAND_LIMITS[i + 1]\<close>, else \<open>-1\<close>.
  The table and the number of bands are parameters of the model, so that other tables
  than the one of config.h can be classified against; the table of the source has
  \<open>nb + 1\<close> entries.
\<close>

definition in_band :: "fval list \<Rightarrow> nat \<Rightarrow> fval \<Rightarrow> bool" where
  "in_band limits i frequency =
     (fge frequency (limits ! i) \<and> flt frequency (limits ! (i + 1)))"

function getBandIndex_from :: "fval list \<Rightarrow> nat \<Rightarrow> fval \<Rightarrow> nat \<Rightarrow> int" where
  "getBandIndex_from limits nb frequency i =
     (if i < nb
      then (if in_band limits i frequency then int i
            else getBandIndex_from limits nb frequency (i + 1))
      else - 1)"
  by pat_completeness auto
termination
  by (relation "measure (\<lambda>(limits, nb, frequency, i). nb - i)") auto

declare getBandIndex_from.simps [simp del]

definition getBandIndex :: "fval list \<Rightarrow> nat \<Rightarrow> fval \<Rightarrow> int" where
  "getBandIndex limits nb frequency = getBandIndex_from limits nb frequency 0"

text \<open>A table is strictly increasing, as the data model of the specification asks.\<close>

definition increasing :: "fval list \<Rightarrow> bool" where
  "increasing limits =
     (\<forall>j < length limits. \<forall>i < j. flt (limits ! i) (limits ! j))"

section \<open>The band compressor (wdrc.h, wdrc.cpp)\<close>

record WDRC =
  alpha_attack :: fval
  alpha_release :: fval
  envelope :: fval
  threshold :: fval
  ratio :: fval
  knee_width :: fval
  band_gain :: fval

text \<open>
  The constructor \<^verbatim>\<open>WDRC::WDRC() : envelope(0.0f)\<close> initialises the envelope only; the
  other fields keep whatever the memory of the object held, which is the argument here.
\<close>

definition WDRC_ctor :: "WDRC \<Rightarrow> WDRC" where
  "WDRC_ctor uninitialised = uninitialised\<lparr>envelope := Fin 0\<rparr>"

text \<open>
  \<^verbatim>\<open>setParameters\<close> copies the four parameters of the curve and computes the two
  smoothing coefficients \<^verbatim>\<open>exp(-1.0f / (SAMPLE_RATE * time))\<close>.
\<close>

definition setParameters :: "WDRC \<Rightarrow> BandParams \<Rightarrow> WDRC" where
  "setParameters w params =
     w\<lparr>threshold := bp_threshold params,
       ratio := bp_ratio params,
       knee_width := bp_knee_width params,
       band_gain := bp_gain params,
       alpha_attack :=
         fexp (fdiv (Fin (- 1)) (fmul (Fin (real SAMPLE_RATE)) (bp_attack_time params))),
       alpha_release :=
         fexp (fdiv (Fin (- 1)) (fmul (Fin (real SAMPLE_RATE)) (bp_release_time params)))\<rparr>"

text \<open>
  \<^verbatim>\<open>pow(10.0f, db / 20.0f)\<close> and \<^verbatim>\<open>20.0f * log10(fabs(linear) + 1e-9f)\<close>.
\<close>

definition db_to_linear :: "fval \<Rightarrow> fval" where
  "db_to_linear db = fpow10 (fdiv db (Fin 20))"

definition linear_to_db :: "fval \<Rightarrow> fval" where
  "linear_to_db lin = fmul (Fin 20) (flog10 (fadd (fabs lin) (Fin (1 / 10 ^ 9))))"

text \<open>Step 2 of \<^verbatim>\<open>WDRC::process\<close>: the new value of the envelope.\<close>

definition next_envelope :: "WDRC \<Rightarrow> fval \<Rightarrow> fval" where
  "next_envelope w input_db =
     (if fgt input_db (envelope w)
      then fadd (fmul (alpha_attack w) (envelope w))
                (fmul (fsub (Fin 1) (alpha_attack w)) input_db)
      else fadd (fmul (alpha_release w) (envelope w))
                (fmul (fsub (Fin 1) (alpha_release w)) input_db))"

text \<open>
  Step 3: \<^verbatim>\<open>gain_db\<close> from \<^verbatim>\<open>diff = envelope - threshold\<close>. The product of the knee
  region is evaluated from the left, as C++ does, and then divided by \<^verbatim>\<open>2 * knee_width\<close>.
\<close>

definition compression_gain :: "WDRC \<Rightarrow> fval \<Rightarrow> fval" where
  "compression_gain w diff =
     (if fle (fabs diff) (fdiv (knee_width w) (Fin 2))
      then (let knee_factor = fadd diff (fdiv (knee_width w) (Fin 2))
            in fdiv (fmul (fmul (fsub (ratio w) (Fin 1)) knee_factor) knee_factor)
                    (fmul (Fin 2) (knee_width w)))
      else if fgt diff (fdiv (knee_width w) (Fin 2))
      then fmul (fsub (ratio w) (Fin 1)) diff
      else Fin 0)"

text \<open>Step 5: the two comparisons against \<^verbatim>\<open>0.99f\<close> and \<^verbatim>\<open>-0.99f\<close>.\<close>

definition limit_output :: "fval \<Rightarrow> fval" where
  "limit_output output =
     (let output1 = (if fgt output (Fin (99 / 100)) then Fin (99 / 100) else output)
      in if flt output1 (Fin (- (99 / 100))) then Fin (- (99 / 100)) else output1)"

text \<open>Step 4: the output before it is limited.\<close>

definition unlimited_output :: "WDRC \<Rightarrow> fval \<Rightarrow> fval" where
  "unlimited_output w input =
     (let input_db = linear_to_db input;
          env = next_envelope w input_db;
          diff = fsub env (threshold w);
          gain_db = compression_gain w diff
      in fmul input (db_to_linear (fadd (fneg gain_db) (band_gain w))))"

text \<open>
  \<^verbatim>\<open>WDRC::process\<close> returns the limited output and leaves the new envelope in the object.
\<close>

definition WDRC_process :: "WDRC \<Rightarrow> fval \<Rightarrow> fval \<times> WDRC" where
  "WDRC_process w input =
     (limit_output (unlimited_output w input),
      w\<lparr>envelope := next_envelope w (linear_to_db input)\<rparr>)"

text \<open>The same input in \<open>n\<close> successive calls; the object after the last one.\<close>

fun process_repeated :: "WDRC \<Rightarrow> fval \<Rightarrow> nat \<Rightarrow> WDRC" where
  "process_repeated w input 0 = w"
| "process_repeated w input (Suc n) = process_repeated (snd (WDRC_process w input)) input n"

text \<open>
  The soft-knee curve on real numbers, its two formulas apart: the knee region and the
  region of full compression.
\<close>

definition knee_formula :: "real \<Rightarrow> real \<Rightarrow> real \<Rightarrow> real" where
  "knee_formula r kw d = (r - 1) * (d + kw / 2) * (d + kw / 2) / (2 * kw)"

definition linear_formula :: "real \<Rightarrow> real \<Rightarrow> real" where
  "linear_formula r d = (r - 1) * d"

text \<open>The three regions of step 3 on real numbers, chosen as the source chooses them.\<close>

definition gain_curve :: "real \<Rightarrow> real \<Rightarrow> real \<Rightarrow> real" where
  "gain_curve r kw d =
     (if \<bar>d\<bar> \<le> kw / 2 then knee_formula r kw d
      else if kw / 2 < d then linear_formula r d
      else 0)"

text \<open>Every field of the object holds a finite value.\<close>

definition finite_WDRC :: "WDRC \<Rightarrow> bool" where
  "finite_WDRC w =
     (is_finite (alpha_attack w) \<and> is_finite (alpha_release w) \<and> is_finite (envelope w) \<and>
      is_finite (threshold w) \<and> is_finite (ratio w) \<and> is_finite (knee_width w) \<and>
      is_finite (band_gain w))"

section \<open>The multiband processor (multiband_wdrc.h, multiband_wdrc.cpp)\<close>

text \<open>
  The macros and tables of config.h that the processor reads are gathered in a record,
  so that the processor can be run on other tables; \<open>config_h\<close> holds the values of the
  source.
\<close>

record Config =
  cfg_sample_rate :: nat
  cfg_fft_size :: nat
  cfg_num_bands :: nat
  cfg_limits :: "fval list"

definition config_h :: Config where
  "config_h = \<lparr>cfg_sample_rate = SAMPLE_RATE, cfg_fft_size = FFT_SIZE,
                cfg_num_bands = NUM_BANDS, cfg_limits = BAND_LIMITS\<rparr>"

record MultibandWDRC =
  wdrc_bands :: "WDRC list"
  real_buf :: "fval list"
  imag_buf :: "fval list"

text \<open>
  The constructor sets the parameters of each band; the buffers are not initialised.
\<close>

definition MultibandWDRC_ctor :: "MultibandWDRC \<Rightarrow> MultibandWDRC" where
  "MultibandWDRC_ctor uninitialised =
     uninitialised\<lparr>wdrc_bands :=
       map (\<lambda>i. setParameters (WDRC_ctor (wdrc_bands uninitialised ! i)) (BAND_PARAMS ! i))
           [0 ..< NUM_BANDS]\<rparr>"

definition bin_frequency :: "Config \<Rightarrow> nat \<Rightarrow> fval" where
  "bin_frequency c i =
     fdiv (fmul (Fin (real i)) (Fin (real (cfg_sample_rate c)))) (Fin (real (cfg_fft_size c)))"

text \<open>The band that the loop finds for bin \<open>i\<close>.\<close>

definition bin_band :: "Config \<Rightarrow> nat \<Rightarrow> int" where
  "bin_band c i = getBandIndex (cfg_limits c) (cfg_num_bands c) (bin_frequency c i)"

text \<open>The body of the loop over the bins, for bin \<open>i\<close>.\<close>

definition process_bin :: "Config \<Rightarrow> MultibandWDRC \<Rightarrow> nat \<Rightarrow> MultibandWDRC" where
  "process_bin c m i =
     (let frequency = bin_frequency c i;
          band = getBandIndex (cfg_limits c) (cfg_num_bands c) frequency
      in if 0 \<le> band
         then (let re = real_buf m ! i;
                   im = imag_buf m ! i;
                   mag = fsqrt (fadd (fmul re re) (fmul im im));
                   phase = fatan2 im re;
                   r = WDRC_process (wdrc_bands m ! nat band) mag;
                   real1 = (real_buf m)[i := fmul (fst r) (fcos phase)];
                   imag1 = (imag_buf m)[i := fmul (fst r) (fsin phase)];
                   real2 = (if i \<noteq> 0 then real1[cfg_fft_size c - i := real1 ! i] else real1);
                   imag2 = (if i \<noteq> 0 then imag1[cfg_fft_size c - i := fneg (imag1 ! i)]
                            else imag1)
               in m\<lparr>wdrc_bands := (wdrc_bands m)[nat band := snd r],
                     real_buf := real2, imag_buf := imag2\<rparr>)
         else m)"

text \<open>\<^verbatim>\<open>for (int i = 0; i < FFT_SIZE/2; i++)\<close>, entered at \<open>i\<close>.\<close>

function band_loop :: "Config \<Rightarrow> MultibandWDRC \<Rightarrow> nat \<Rightarrow> MultibandWDRC" where
  "band_loop c m i =
     (if i < cfg_fft_size c div 2 then band_loop c (process_bin c m i) (i + 1) else m)"
  by pat_completeness auto
termination
  by (relation "measure (\<lambda>(c, m, i). cfg_fft_size c div 2 - i)") auto

declare band_loop.simps [simp del]

text \<open>The processor with bin \<open>h\<close> of the two buffers replaced by \<open>re\<close> and \<open>im\<close>.\<close>

definition set_bin :: "nat \<Rightarrow> fval \<Rightarrow> fval \<Rightarrow> MultibandWDRC \<Rightarrow> MultibandWDRC" where
  "set_bin h re im m = m\<lparr>real_buf := (real_buf m)[h := re], imag_buf := (imag_buf m)[h := im]\<rparr>"

subsection \<open>The spectral transform\<close>

text \<open>
  Modelled from the spec: the transform object \<^verbatim>\<open>ArduinoFFT<double>\<close> and its functions
  \<^verbatim>\<open>windowing\<close> and \<^verbatim>\<open>compute\<close> come from a library that is not among the sources.
  The specification (4.1) describes them: \<open>analyze\<close> applies a Hamming window to the real
  buffer and computes the \<open>N\<close>-point forward transform; \<open>synthesize\<close> computes the
  \<open>N\<close>-point inverse transform, and the round trip of the two scales the amplitude by
  \<open>N\<close>. The window has the usual coefficients \<open>0.54 - 0.46 cos (2 pi i / (N - 1))\<close>; the
  transforms are the discrete Fourier sums without a normalising factor.
\<close>

definition hamming :: "nat \<Rightarrow> nat \<Rightarrow> real" where
  "hamming N i = 54 / 100 - 46 / 100 * cos (2 * pi * real i / real (N - 1))"

text \<open>
  Modelled from the spec: bin \<open>k\<close> of the \<open>N\<close>-point transform of \<open>x\<close>, the library's
  \<^verbatim>\<open>compute\<close> on complex numbers; \<open>s = -1\<close> is the forward and \<open>s = 1\<close> the inverse
  direction.
\<close>

definition fourier_sum :: "nat \<Rightarrow> real \<Rightarrow> (nat \<Rightarrow> complex) \<Rightarrow> nat \<Rightarrow> complex" where
  "fourier_sum N s x k = (\<Sum>n<N. x n * cis (s * (2 * pi * real k * real n / real N)))"

text \<open>
  Modelled from the spec: the two directions that the source passes to the library.
\<close>

datatype FFTDirection = FFT_FORWARD | FFT_REVERSE

fun direction_sign :: "FFTDirection \<Rightarrow> real" where
  "direction_sign FFT_FORWARD = - 1"
| "direction_sign FFT_REVERSE = 1"

text \<open>The real number that a finite value holds (and \<open>0\<close> for the other values).\<close>

fun fin_value :: "fval \<Rightarrow> real" where
  "fin_value (Fin x) = x"
| "fin_value _ = 0"

text \<open>
  Modelled from the spec: the library's \<^verbatim>\<open>windowing(FFT_WIN_TYP_HAMMING, FFT_FORWARD)\<close>,
  which multiplies each sample of the real buffer with its window coefficient.
\<close>

definition windowing :: "MultibandWDRC \<Rightarrow> MultibandWDRC" where
  "windowing m =
     m\<lparr>real_buf := map (\<lambda>i. fmul (real_buf m ! i) (Fin (hamming (length (real_buf m)) i)))
                        [0 ..< length (real_buf m)]\<rparr>"

text \<open>
  Modelled from the spec: the transform of the two buffers in place. When a buffer holds
  a value that is not finite, every bin of the result is not-a-number.
\<close>

definition compute :: "FFTDirection \<Rightarrow> MultibandWDRC \<Rightarrow> MultibandWDRC" where
  "compute dir m =
     (let N = length (real_buf m);
          z = (\<lambda>n. Complex (fin_value (real_buf m ! n)) (fin_value (imag_buf m ! n)));
          Z = fourier_sum N (direction_sign dir) z
      in if list_all is_finite (real_buf m) \<and> list_all is_finite (imag_buf m)
         then m\<lparr>real_buf := map (\<lambda>k. Fin (Re (Z k))) [0 ..< N],
                 imag_buf := map (\<lambda>k. Fin (Im (Z k))) [0 ..< N]\<rparr>
         else m\<lparr>real_buf := replicate N NaN, imag_buf := replicate N NaN\<rparr>)"

subsection \<open>MultibandWDRC::process\<close>

text \<open>
  The block \<^verbatim>\<open>input[0 .. size)\<close> is copied and padded with zeros, windowed and transformed,
  the bins are processed, the spectrum is transformed back, and
  \<^verbatim>\<open>output[i] = real[i] / FFT_SIZE\<close> for \<open>i < size\<close> (\<open>sz\<close> below). The result is the
  output block and the processor after the call. The source does not check \<open>size\<close>: a
  block longer than \<^verbatim>\<open>FFT_SIZE\<close> reads the buffer beyond its end, so the properties of
  this function are stated for \<open>size \<le> FFT_SIZE\<close> and for an input array of at least
  \<open>size\<close> samples.
\<close>

definition MultibandWDRC_process ::
    "Config \<Rightarrow> MultibandWDRC \<Rightarrow> fval list \<Rightarrow> int \<Rightarrow> fval list \<times> MultibandWDRC" where
  "MultibandWDRC_process c m input sz =
     (let N = cfg_fft_size c;
          m1 = m\<lparr>real_buf := map (\<lambda>i. if int i < sz then input ! i else Fin 0) [0 ..< N],
                 imag_buf := replicate N (Fin 0)\<rparr>;
          m2 = compute FFT_FORWARD (windowing m1);
          m3 = band_loop c m2 0;
          m4 = compute FFT_REVERSE m3
      in (map (\<lambda>i. fdiv (real_buf m4 ! i) (Fin (real N))) [0 ..< nat sz], m4))"

section \<open>The envelope detector in binary32\<close>

text \<open>
  The envelope of \<^verbatim>\<open>WDRC::process\<close> is a \<^verbatim>\<open>float\<close> that every call moves a little towards
  \<^verbatim>\<open>input_db\<close>; whether it arrives depends on the rounding of each operation, which \<open>fval\<close>
  leaves out. This section embeds the same lines of the source a second time, on finite
  values only, with every result rounded to binary32: a significand of 24 bits, rounding to
  the nearest value, ties to the even significand. The exponent is not bounded, so that
  there is neither overflow nor underflow; the library functions \<^verbatim>\<open>exp\<close> and \<^verbatim>\<open>log10\<close> are
  taken at \<^verbatim>\<open>float\<close> and correctly rounded; a product and a sum are two operations, never
  one fused operation.

  \<open>rne q\<close> is the integer nearest to \<open>q\<close>, the even one of the two when \<open>q\<close> lies halfway.
  \<open>f32_exponent x\<close> is the exponent \<open>k\<close> of the binade \<open>2^k \<le> |x| < 2^(k+1)\<close>, in which the
  binary32 values are the multiples of \<open>2^(k-23)\<close>, and \<open>f32 x\<close> is the binary32 value nearest
  to \<open>x\<close>.
\<close>

definition rne :: "real \<Rightarrow> int" where
  "rne q = (let f = \<lfloor>q\<rfloor>
            in if q - of_int f < 1 / 2 then f
               else if 1 / 2 < q - of_int f then f + 1
               else if even f then f else f + 1)"

definition f32_exponent :: "real \<Rightarrow> int" where
  "f32_exponent x = \<lfloor>log 2 \<bar>x\<bar>\<rfloor>"

definition f32 :: "real \<Rightarrow> real" where
  "f32 x = (if x = 0 then 0
            else 2 powr (of_int (f32_exponent x) - 23) *
                 of_int (rne (x / 2 powr (of_int (f32_exponent x) - 23))))"





section \<open>Objects and configurations of the examples\<close>

text \<open>
  An object whose memory held zeros before the constructor ran, and the compressor of
  band \<open>i\<close> that the constructor of the multiband processor makes of it.
\<close>

definition zeroed_WDRC :: WDRC where
  "zeroed_WDRC = \<lparr>alpha_attack = Fin 0, alpha_release = Fin 0, envelope = Fin 0,
     threshold = Fin 0, ratio = Fin 0, knee_width = Fin 0, band_gain = Fin 0\<rparr>"

definition band_WDRC :: "nat \<Rightarrow> WDRC" where
  "band_WDRC i = setParameters (WDRC_ctor zeroed_WDRC) (BAND_PARAMS ! i)"

text \<open>The compressor of band 0 with its envelope at \<open>e\<close> dB.\<close>

definition band0_envelope :: "real \<Rightarrow> WDRC" where
  "band0_envelope e = (band_WDRC 0)\<lparr>envelope := Fin e\<rparr>"

text \<open>
  Parameters of a compressor with a hard knee (\<open>knee_width = 0\<close>), whose threshold is the
  level that the envelope of a new compressor takes after one call with the input \<open>0\<close>.
\<close>

definition hard_knee_params :: BandParams where
  "hard_knee_params = \<lparr>bp_threshold = Fin (- 180 * (1 - exp (- 1 / 4410))), bp_ratio = Fin 2,
     bp_knee_width = Fin 0, bp_gain = Fin 0, bp_attack_time = Fin (1 / 100),
     bp_release_time = Fin (1 / 10)\<rparr>"

text \<open>
  Parameters of a compressor with a hard knee and the threshold at 0 dB, the level of a
  full-scale input.
\<close>

definition hard_knee_full_scale_params :: BandParams where
  "hard_knee_full_scale_params = \<lparr>bp_threshold = Fin 0, bp_ratio = Fin 2,
     bp_knee_width = Fin 0, bp_gain = Fin 0, bp_attack_time = Fin (1 / 100),
     bp_release_time = Fin (1 / 10)\<rparr>"

text \<open>
  The processor that the constructor makes of zeroed memory, and a configuration whose
  table of boundaries is decreasing instead of increasing.
\<close>

definition zeroed_processor :: MultibandWDRC where
  "zeroed_processor =
     MultibandWDRC_ctor \<lparr>wdrc_bands = replicate NUM_BANDS zeroed_WDRC,
       real_buf = replicate FFT_SIZE (Fin 0), imag_buf = replicate FFT_SIZE (Fin 0)\<rparr>"

definition decreasing_config :: Config where
  "decreasing_config = config_h\<lparr>cfg_limits := [Fin 8000, Fin 4000, Fin 1000, Fin 250]\<rparr>"

text \<open>A configuration without bands: the table holds one boundary and no interval.\<close>

definition no_bands_config :: Config where
  "no_bands_config = config_h\<lparr>cfg_num_bands := 0, cfg_limits := [Fin 250]\<rparr>"

section \<open>Properties of the floating-point operations\<close>






lemma is_finite_iff: "is_finite a \<longleftrightarrow> (\<exists>x. a = Fin x)"
  by (cases a) auto

lemma fsub_Fin [simp]: "fsub (Fin a) (Fin b) = Fin (a - b)"
  by (simp add: fsub_def)

lemma fgt_Fin [simp]: "fgt (Fin a) (Fin b) \<longleftrightarrow> b < a"
  by (simp add: fgt_def)


section \<open>Properties of the band classifier\<close>

lemma getBandIndex_from_stop: "\<not> i < nb \<Longrightarrow> getBandIndex_from limits nb f i = - 1"
  by (subst getBandIndex_from.simps) simp

lemma getBandIndex_from_hit:
  "i < nb \<Longrightarrow> in_band limits i f \<Longrightarrow> getBandIndex_from limits nb f i = int i"
  by (subst getBandIndex_from.simps) simp

lemma getBandIndex_from_miss:
  "i < nb \<Longrightarrow> \<not> in_band limits i f \<Longrightarrow>
   getBandIndex_from limits nb f i = getBandIndex_from limits nb f (i + 1)"
  by (subst getBandIndex_from.simps) simp

lemma getBandIndex_from_range:
  "getBandIndex_from limits nb f i = - 1 \<or>
   (int i \<le> getBandIndex_from limits nb f i \<and> getBandIndex_from limits nb f i < int nb)"
proof (induction limits nb f i rule: getBandIndex_from.induct)
  case (1 limits nb f i)
  show ?case
  proof (cases "i < nb")
    case False
    then show ?thesis by (simp add: getBandIndex_from_stop)
  next
    case True
    show ?thesis
    proof (cases "in_band limits i f")
      case True
      with \<open>i < nb\<close> show ?thesis by (simp add: getBandIndex_from_hit)
    next
      case False
      with \<open>i < nb\<close> "1.IH" getBandIndex_from_miss [OF \<open>i < nb\<close> False]
      show ?thesis by auto
    qed
  qed
qed

lemma all_from_Suc:
  "\<not> P i \<Longrightarrow> (\<forall>j. i \<le> j \<and> j < n \<longrightarrow> \<not> P j) \<longleftrightarrow> (\<forall>j. i + 1 \<le> j \<and> j < (n::nat) \<longrightarrow> \<not> P j)"
proof (intro iffI allI impI)
  fix j
  assume "\<forall>j. i \<le> j \<and> j < n \<longrightarrow> \<not> P j" and "i + 1 \<le> j \<and> j < n"
  then show "\<not> P j" by simp
next
  fix j
  assume i: "\<not> P i" and a: "\<forall>j. i + 1 \<le> j \<and> j < n \<longrightarrow> \<not> P j" and b: "i \<le> j \<and> j < n"
  show "\<not> P j"
  proof (cases "j = i")
    case True
    with i show ?thesis by simp
  next
    case False
    with b have "i + 1 \<le> j \<and> j < n" by simp
    with a show ?thesis by blast
  qed
qed

lemma getBandIndex_from_none:
  "getBandIndex_from limits nb f i = - 1 \<longleftrightarrow> (\<forall>j. i \<le> j \<and> j < nb \<longrightarrow> \<not> in_band limits j f)"
proof (induction limits nb f i rule: getBandIndex_from.induct)
  case (1 limits nb f i)
  show ?case
  proof (cases "i < nb")
    case False
    then show ?thesis by (auto simp: getBandIndex_from_stop)
  next
    case True
    show ?thesis
    proof (cases "in_band limits i f")
      case True
      with \<open>i < nb\<close> have "getBandIndex_from limits nb f i \<noteq> - 1"
        by (simp add: getBandIndex_from_hit)
      with True \<open>i < nb\<close> show ?thesis by blast
    next
      case False
      have "(\<forall>j. i \<le> j \<and> j < nb \<longrightarrow> \<not> in_band limits j f)
          \<longleftrightarrow> (\<forall>j. i + 1 \<le> j \<and> j < nb \<longrightarrow> \<not> in_band limits j f)"
        using False by (rule all_from_Suc)
      then show ?thesis
        using "1.IH" [OF \<open>i < nb\<close> False] getBandIndex_from_miss [OF \<open>i < nb\<close> False] by simp
    qed
  qed
qed






lemma classify_1000: "getBandIndex BAND_LIMITS NUM_BANDS (Fin 1000) = 1"
  by (simp add: getBandIndex_def BAND_LIMITS_def NUM_BANDS_def getBandIndex_from.simps
      in_band_def fge_def)







section \<open>Properties of the band compressor\<close>

lemma linear_to_db_Fin: "linear_to_db (Fin x) = Fin (20 * log 10 (\<bar>x\<bar> + 1 / 10 ^ 9))"
proof -
  have "0 < \<bar>x\<bar> + 1 / 10 ^ 9" by (rule add_nonneg_pos) simp_all
  then show ?thesis by (simp add: linear_to_db_def)
qed

lemma linear_to_db_zero: "linear_to_db (Fin 0) = Fin (- 180)"
proof -
  have "log 10 ((10::real) ^ 9) = real 9" by (rule log_pow_cancel) simp_all
  moreover have "log 10 (1 / (10::real) ^ 9) = - log 10 (10 ^ 9)"
    by (rule log_recip)
  ultimately have "log 10 (1 / (10::real) ^ 9) = - 9" by (simp only: of_nat_numeral)
  then show ?thesis by (simp add: linear_to_db_Fin)
qed

lemma db_to_linear_Fin: "db_to_linear (Fin x) = Fin (10 powr (x / 20))"
  by (simp add: db_to_linear_def)

lemma next_envelope_Fin:
  "alpha_attack w = Fin aa \<Longrightarrow> alpha_release w = Fin ar \<Longrightarrow> envelope w = Fin e \<Longrightarrow>
   next_envelope w (Fin d) =
     Fin (if e < d then aa * e + (1 - aa) * d else ar * e + (1 - ar) * d)"
  by (simp add: next_envelope_def)

lemma alpha_Fin:
  "0 < t \<Longrightarrow> fexp (fdiv (Fin (- 1)) (fmul (Fin (real SAMPLE_RATE)) (Fin t)))
     = Fin (exp (- 1 / (real SAMPLE_RATE * t)))"
  by (simp add: SAMPLE_RATE_def)

lemma compression_gain_Fin:
  assumes "ratio w = Fin r" and "knee_width w = Fin kw" and "kw \<noteq> 0"
  shows "compression_gain w (Fin d) = Fin (gain_curve r kw d)"
  using assms
  by (simp add: compression_gain_def gain_curve_def knee_formula_def linear_formula_def Let_def)

lemma gain_curve_closed_form:
  assumes "0 < kw"
  shows "gain_curve r kw d =
     (r - 1) * (min kw (max 0 (d + kw / 2)))\<^sup>2 / (2 * kw) + (r - 1) * max 0 (d - kw / 2)"
proof -
  consider "\<bar>d\<bar> \<le> kw / 2" | "kw / 2 < d" | "d < - (kw / 2)" by linarith
  then show ?thesis
  proof cases
    case 1
    then have "max 0 (d + kw / 2) = d + kw / 2" "min kw (d + kw / 2) = d + kw / 2"
      "max 0 (d - kw / 2) = 0" by auto
    with 1 show ?thesis by (simp add: gain_curve_def knee_formula_def power2_eq_square)
  next
    case 2
    with assms have "max 0 (d + kw / 2) = d + kw / 2" "min kw (d + kw / 2) = kw"
      "max 0 (d - kw / 2) = d - kw / 2" "\<not> \<bar>d\<bar> \<le> kw / 2" by auto
    with 2 assms show ?thesis
      by (simp add: gain_curve_def linear_formula_def power2_eq_square field_simps)
  next
    case 3
    with assms have "max 0 (d + kw / 2) = 0" "min kw 0 = 0"
      "max 0 (d - kw / 2) = 0" by auto
    moreover from 3 assms have "gain_curve r kw d = 0" by (auto simp: gain_curve_def)
    ultimately show ?thesis by simp
  qed
qed

lemma gain_curve_continuous:
  assumes "0 < kw"
  shows "isCont (gain_curve r kw) d"
proof -
  have "gain_curve r kw =
      (\<lambda>d. (r - 1) * (min kw (max 0 (d + kw / 2)))\<^sup>2 / (2 * kw) + (r - 1) * max 0 (d - kw / 2))"
    using assms by (intro ext gain_curve_closed_form)
  moreover have "isCont
      (\<lambda>d. (r - 1) * (min kw (max 0 (d + kw / 2)))\<^sup>2 / (2 * kw) + (r - 1) * max 0 (d - kw / 2)) d"
    using assms by (intro continuous_intros) simp_all
  ultimately show ?thesis by simp
qed

lemma limit_output_Fin:
  "limit_output (Fin y) = Fin (max (- (99 / 100)) (min (99 / 100) y))"
  by (simp add: limit_output_def Let_def fgt_def)

lemma limit_output_special:
  "limit_output NaN = NaN" "limit_output PInf = Fin (99 / 100)"
  "limit_output NInf = Fin (- (99 / 100))"
  by (simp_all add: limit_output_def Let_def fgt_def)

lemma limit_output_bounded:
  assumes "a \<noteq> NaN"
  shows "\<exists>y. limit_output a = Fin y \<and> \<bar>y\<bar> \<le> 99 / 100"
proof (cases a)
  case (Fin y)
  have "\<bar>max (- (99 / 100)) (min (99 / 100) y)\<bar> \<le> (99 / 100 :: real)" by auto
  with Fin show ?thesis by (simp only: limit_output_Fin) blast
next
  case PInf
  have "\<bar>99 / 100 :: real\<bar> \<le> 99 / 100" by simp
  with PInf show ?thesis by (simp only: limit_output_special) blast
next
  case NInf
  have "\<bar>- (99 / 100) :: real\<bar> \<le> 99 / 100" by simp
  with NInf show ?thesis by (simp only: limit_output_special) blast
next
  case NaN
  with assms show ?thesis by simp
qed

lemma band_WDRC_0:
  "band_WDRC 0 = \<lparr>alpha_attack = Fin (exp (- 1 / 441)), alpha_release = Fin (exp (- 1 / 4410)),
     envelope = Fin 0, threshold = Fin (- 50), ratio = Fin 2, knee_width = Fin 10,
     band_gain = Fin 15\<rparr>"
  by (simp add: band_WDRC_def setParameters_def WDRC_ctor_def zeroed_WDRC_def BAND_PARAMS_def
      SAMPLE_RATE_def)

lemma finite_WDRC_fields:
  "finite_WDRC w \<longleftrightarrow> (\<exists>aa ar e t r kw g. alpha_attack w = Fin aa \<and> alpha_release w = Fin ar \<and>
     envelope w = Fin e \<and> threshold w = Fin t \<and> ratio w = Fin r \<and> knee_width w = Fin kw \<and>
     band_gain w = Fin g)"
  by (simp add: finite_WDRC_def is_finite_iff)

lemma unlimited_output_Fin:
  assumes "alpha_attack w = Fin aa" "alpha_release w = Fin ar" "envelope w = Fin e"
    "threshold w = Fin t" "ratio w = Fin r" "knee_width w = Fin kw" "band_gain w = Fin g"
    and "kw \<noteq> 0"
  shows "unlimited_output w (Fin x) =
     Fin (x * 10 powr ((- gain_curve r kw
        ((if e < 20 * log 10 (\<bar>x\<bar> + 1 / 10 ^ 9)
          then aa * e + (1 - aa) * (20 * log 10 (\<bar>x\<bar> + 1 / 10 ^ 9))
          else ar * e + (1 - ar) * (20 * log 10 (\<bar>x\<bar> + 1 / 10 ^ 9))) - t) + g) / 20))"
proof -
  have "fsub (next_envelope w (linear_to_db (Fin x))) (threshold w) =
      Fin ((if e < 20 * log 10 (\<bar>x\<bar> + 1 / 10 ^ 9)
          then aa * e + (1 - aa) * (20 * log 10 (\<bar>x\<bar> + 1 / 10 ^ 9))
          else ar * e + (1 - ar) * (20 * log 10 (\<bar>x\<bar> + 1 / 10 ^ 9))) - t)"
    using assms by (simp only: linear_to_db_Fin next_envelope_Fin fsub_Fin)
  then show ?thesis
    using assms(7)
    by (simp add: unlimited_output_def Let_def
        compression_gain_Fin [OF assms(5) assms(6) assms(8)] db_to_linear_Fin)
qed

lemma unlimited_output_finite:
  assumes "finite_WDRC w" and "knee_width w \<noteq> Fin 0" and "is_finite input"
  shows "is_finite (unlimited_output w input)"
proof -
  from assms(1) obtain aa ar e t r kw g where f: "alpha_attack w = Fin aa"
    "alpha_release w = Fin ar" "envelope w = Fin e" "threshold w = Fin t" "ratio w = Fin r"
    "knee_width w = Fin kw" "band_gain w = Fin g"
    by (auto simp: finite_WDRC_fields)
  from assms(3) obtain x where x: "input = Fin x" by (auto simp: is_finite_iff)
  from f assms(2) have "kw \<noteq> 0" by simp
  from unlimited_output_Fin [OF f this] x show ?thesis by simp
qed

lemma exp_neg_less_one: "0 < t \<Longrightarrow> exp (- t) < (1::real)"
  by simp

lemma WDRC_process_fst: "fst (WDRC_process w input) = limit_output (unlimited_output w input)"
  by (simp add: WDRC_process_def)

lemma WDRC_process_envelope:
  "envelope (snd (WDRC_process w input)) = next_envelope w (linear_to_db input)"
  by (simp add: WDRC_process_def)

text \<open>
  C2, as amended. The value that \<^verbatim>\<open>WDRC::process\<close> returns lies in \<open>[-0.99, 0.99]\<close>
  whenever the product of the input and the gain (the output before it is limited) is
  not not-a-number; an infinite product is limited too. When the product is not-a-number,
  both comparisons of the limiter are false and not-a-number is returned. In the exact
  arithmetic of the model the product is finite for every finite input, every object
  with finite fields and every knee width other than zero.
\<close>

theorem WDRC_process_limited:
  "(unlimited_output w input \<noteq> NaN \<longrightarrow>
      (\<exists>y. fst (WDRC_process w input) = Fin y \<and> \<bar>y\<bar> \<le> 99 / 100)) \<and>
   (unlimited_output w input = NaN \<longrightarrow> fst (WDRC_process w input) = NaN) \<and>
   (finite_WDRC w \<and> knee_width w \<noteq> Fin 0 \<and> is_finite input \<longrightarrow>
      (\<exists>y. fst (WDRC_process w input) = Fin y \<and> \<bar>y\<bar> \<le> 99 / 100))"
proof (intro conjI impI)
  assume "unlimited_output w input \<noteq> NaN"
  then show "\<exists>y. fst (WDRC_process w input) = Fin y \<and> \<bar>y\<bar> \<le> 99 / 100"
    unfolding WDRC_process_fst by (rule limit_output_bounded)
next
  assume "unlimited_output w input = NaN"
  then show "fst (WDRC_process w input) = NaN"
    by (simp add: WDRC_process_fst limit_output_special)
next
  assume "finite_WDRC w \<and> knee_width w \<noteq> Fin 0 \<and> is_finite input"
  then have "is_finite (unlimited_output w input)" by (simp add: unlimited_output_finite)
  then have "unlimited_output w input \<noteq> NaN" by auto
  then show "\<exists>y. fst (WDRC_process w input) = Fin y \<and> \<bar>y\<bar> \<le> 99 / 100"
    unfolding WDRC_process_fst by (rule limit_output_bounded)
qed

lemma unlimited_output_NaN: "unlimited_output w NaN = NaN"
  by (simp add: unlimited_output_def Let_def)

theorem WDRC_process_limited_witness:
  "finite_WDRC (band_WDRC 0) \<and> knee_width (band_WDRC 0) \<noteq> Fin 0 \<and> is_finite (Fin 1) \<and>
   unlimited_output (band_WDRC 0) (Fin 1) \<noteq> NaN \<and>
   (\<exists>y. fst (WDRC_process (band_WDRC 0) (Fin 1)) = Fin y \<and> \<bar>y\<bar> \<le> 99 / 100) \<and>
   unlimited_output (band_WDRC 0) NaN = NaN \<and>
   fst (WDRC_process (band_WDRC 0) NaN) = NaN"
proof -
  have f: "finite_WDRC (band_WDRC 0) \<and> knee_width (band_WDRC 0) \<noteq> Fin 0 \<and> is_finite (Fin 1)"
    by (simp add: band_WDRC_0 finite_WDRC_def)
  then have "is_finite (unlimited_output (band_WDRC 0) (Fin 1))"
    by (simp add: unlimited_output_finite)
  then have n: "unlimited_output (band_WDRC 0) (Fin 1) \<noteq> NaN" by auto
  have u: "unlimited_output (band_WDRC 0) NaN = NaN" by (rule unlimited_output_NaN)
  show ?thesis
    using f n u WDRC_process_limited [of "band_WDRC 0" "Fin 1"]
      WDRC_process_limited [of "band_WDRC 0" NaN]
    by blast
qed

text \<open>
  C2 as stated fails: for the compressor of band 0, the input not-a-number and the input
  plus infinity are both answered by not-a-number, which is not within \<open>0.99\<close> of zero.
\<close>

theorem WDRC_process_nan_counterexample:
  "fst (WDRC_process (band_WDRC 0) NaN) = NaN \<and>
   \<not> (\<exists>y. fst (WDRC_process (band_WDRC 0) NaN) = Fin y \<and> \<bar>y\<bar> \<le> 99 / 100) \<and>
   fst (WDRC_process (band_WDRC 0) PInf) = NaN \<and>
   \<not> (\<exists>y. fst (WDRC_process (band_WDRC 0) PInf) = Fin y \<and> \<bar>y\<bar> \<le> 99 / 100)"
proof -
  have a: "fst (WDRC_process (band_WDRC 0) NaN) = NaN"
    by (simp add: WDRC_process_fst unlimited_output_NaN limit_output_special)
  have "exp (- (1 / 441)) < (1::real)" by simp
  then have "unlimited_output (band_WDRC 0) PInf = NaN"
    by (simp add: unlimited_output_def Let_def band_WDRC_0 linear_to_db_def next_envelope_def
        fgt_def signed_inf_def compression_gain_def fsub_def db_to_linear_def)
  then have b: "fst (WDRC_process (band_WDRC 0) PInf) = NaN"
    by (simp add: WDRC_process_fst limit_output_special)
  from a b show ?thesis by simp
qed

lemma hard_knee_at_threshold:
  assumes "alpha_attack w = Fin aa" "alpha_release w = Fin ar" "envelope w = Fin e"
    "ratio w = Fin r" "knee_width w = Fin 0" "band_gain w = Fin g"
    and "threshold w = next_envelope w (linear_to_db (Fin x))"
  shows "fst (WDRC_process w (Fin x)) = NaN"
proof -
  obtain t where t: "next_envelope w (linear_to_db (Fin x)) = Fin t"
    using assms(1-3) by (simp add: linear_to_db_Fin next_envelope_Fin)
  have "compression_gain w (fsub (Fin t) (Fin t)) = NaN"
    using assms(4,5) by (simp add: compression_gain_def Let_def)
  then have "unlimited_output w (Fin x) = NaN"
    using t assms(7) by (simp add: unlimited_output_def Let_def db_to_linear_def)
  then show ?thesis by (simp add: WDRC_process_fst limit_output_special)
qed

text \<open>
  C4. A finite input can produce a value that is not finite: with \<open>knee_width = 0\<close> and the
  envelope on the threshold after its update, \<open>\<bar>diff\<bar> \<le> knee_width / 2\<close> holds with
  \<open>diff = 0\<close>, the knee region divides \<open>0\<close> by \<open>2 * knee_width = 0\<close>, and the
  not-a-number passes the limiter. Here: a new compressor with \<open>hard_knee_params\<close>
  (ratio 2, positive time constants) and the input \<open>0\<close>; and a new compressor with the
  threshold at 0 dB and an input whose level is 0 dB, which leaves the envelope at 0 dB.
\<close>

theorem hard_knee_output_not_finite:
  "fst (WDRC_process (setParameters (WDRC_ctor zeroed_WDRC) hard_knee_params) (Fin 0)) = NaN \<and>
   \<not> is_finite (fst (WDRC_process (setParameters (WDRC_ctor zeroed_WDRC) hard_knee_params) (Fin 0))) \<and>
   fst (WDRC_process (setParameters (WDRC_ctor zeroed_WDRC) hard_knee_full_scale_params)
     (Fin (1 - 1 / 10 ^ 9))) = NaN"
proof -
  let ?w = "setParameters (WDRC_ctor zeroed_WDRC) hard_knee_params"
  have w: "?w = \<lparr>alpha_attack = Fin (exp (- 1 / 441)), alpha_release = Fin (exp (- 1 / 4410)),
     envelope = Fin 0, threshold = Fin (- 180 * (1 - exp (- 1 / 4410))), ratio = Fin 2,
     knee_width = Fin 0, band_gain = Fin 0\<rparr>"
    by (simp add: setParameters_def WDRC_ctor_def zeroed_WDRC_def hard_knee_params_def
      SAMPLE_RATE_def)
  have "threshold ?w = next_envelope ?w (linear_to_db (Fin 0))"
    unfolding w linear_to_db_zero by (simp add: next_envelope_def)
  moreover have "alpha_attack ?w = Fin (exp (- 1 / 441))" "alpha_release ?w = Fin (exp (- 1 / 4410))"
    "envelope ?w = Fin 0" "ratio ?w = Fin 2" "knee_width ?w = Fin 0" "band_gain ?w = Fin 0"
    unfolding w by simp_all
  ultimately have first: "fst (WDRC_process ?w (Fin 0)) = NaN"
    using hard_knee_at_threshold by blast
  let ?v = "setParameters (WDRC_ctor zeroed_WDRC) hard_knee_full_scale_params"
  have v: "?v = \<lparr>alpha_attack = Fin (exp (- 1 / 441)), alpha_release = Fin (exp (- 1 / 4410)),
     envelope = Fin 0, threshold = Fin 0, ratio = Fin 2, knee_width = Fin 0, band_gain = Fin 0\<rparr>"
    by (simp add: setParameters_def WDRC_ctor_def zeroed_WDRC_def hard_knee_full_scale_params_def
      SAMPLE_RATE_def)
  have "linear_to_db (Fin (1 - 1 / 10 ^ 9)) = Fin 0"
    unfolding linear_to_db_Fin by simp
  then have "threshold ?v = next_envelope ?v (linear_to_db (Fin (1 - 1 / 10 ^ 9)))"
    unfolding v by (simp add: next_envelope_def)
  moreover have "alpha_attack ?v = Fin (exp (- 1 / 441))" "alpha_release ?v = Fin (exp (- 1 / 4410))"
    "envelope ?v = Fin 0" "ratio ?v = Fin 2" "knee_width ?v = Fin 0" "band_gain ?v = Fin 0"
    unfolding v by simp_all
  ultimately have "fst (WDRC_process ?v (Fin (1 - 1 / 10 ^ 9))) = NaN"
    using hard_knee_at_threshold by blast
  with first show ?thesis by simp
qed

text \<open>
  C5. For every knee width \<open>kw > 0\<close> and every ratio: at \<open>diff = kw / 2\<close> the knee formula
  equals the linear formula, at \<open>diff = - kw / 2\<close> it equals \<open>0\<close>, the gain curve takes
  these values there and is continuous at both edges, and the curve is what step 3 of
  \<^verbatim>\<open>WDRC::process\<close> computes on finite values.
\<close>

theorem knee_continuous_at_edges:
  "0 < kw \<Longrightarrow>
     knee_formula r kw (kw / 2) = linear_formula r (kw / 2) \<and>
     knee_formula r kw (- (kw / 2)) = 0 \<and>
     gain_curve r kw (kw / 2) = linear_formula r (kw / 2) \<and>
     gain_curve r kw (- (kw / 2)) = 0 \<and>
     isCont (gain_curve r kw) (kw / 2) \<and>
     isCont (gain_curve r kw) (- (kw / 2)) \<and>
     (ratio w = Fin r \<and> knee_width w = Fin kw \<longrightarrow>
        compression_gain w (Fin d) = Fin (gain_curve r kw d))"
proof (intro conjI impI)
  assume kw: "0 < kw"
  show k1: "knee_formula r kw (kw / 2) = linear_formula r (kw / 2)"
    using kw by (simp add: knee_formula_def linear_formula_def)
  show k2: "knee_formula r kw (- (kw / 2)) = 0"
    by (simp add: knee_formula_def)
  show "gain_curve r kw (kw / 2) = linear_formula r (kw / 2)"
    using kw k1 by (simp add: gain_curve_def)
  show "gain_curve r kw (- (kw / 2)) = 0"
    using kw k2 by (simp add: gain_curve_def)
  show "isCont (gain_curve r kw) (kw / 2)" "isCont (gain_curve r kw) (- (kw / 2))"
    using kw by (rule gain_curve_continuous)+
  show "compression_gain w (Fin d) = Fin (gain_curve r kw d)"
    if "ratio w = Fin r \<and> knee_width w = Fin kw"
    using that kw by (simp add: compression_gain_Fin)
qed

theorem knee_continuous_at_edges_witness:
  "(0::real) < 10 \<and> ratio (band_WDRC 0) = Fin 2 \<and> knee_width (band_WDRC 0) = Fin 10 \<and>
   knee_formula 2 10 (10 / 2) = linear_formula 2 (10 / 2) \<and>
   knee_formula 2 10 (- (10 / 2)) = 0 \<and>
   isCont (gain_curve 2 10) (10 / 2) \<and> isCont (gain_curve 2 10) (- (10 / 2)) \<and>
   compression_gain (band_WDRC 0) (Fin 5) = Fin (gain_curve 2 10 5)"
proof -
  have h: "(0::real) < 10" by simp
  have p: "ratio (band_WDRC 0) = Fin 2 \<and> knee_width (band_WDRC 0) = Fin 10"
    by (simp add: band_WDRC_0)
  show ?thesis
    using h p knee_continuous_at_edges [OF h, of 2 "band_WDRC 0" 5] by blast
qed

lemma setParameters_envelope: "envelope (setParameters w p) = envelope w"
  by (simp add: setParameters_def)

lemma setParameters_alphas:
  assumes "bp_attack_time p = Fin ta" "0 < ta" "bp_release_time p = Fin tr" "0 < tr"
  shows "alpha_attack (setParameters w p) = Fin (exp (- 1 / (real SAMPLE_RATE * ta)))"
    and "alpha_release (setParameters w p) = Fin (exp (- 1 / (real SAMPLE_RATE * tr)))"
  using assms by (simp_all add: setParameters_def SAMPLE_RATE_def)

lemma alpha_in_unit_interval:
  assumes "0 < t"
  shows "0 < exp (- 1 / (real SAMPLE_RATE * t))" and "exp (- 1 / (real SAMPLE_RATE * t)) < 1"
proof -
  show "0 < exp (- 1 / (real SAMPLE_RATE * t))" by simp
  have "0 < real SAMPLE_RATE * t" using assms by (simp add: SAMPLE_RATE_def)
  then have "- 1 / (real SAMPLE_RATE * t) < 0" by simp
  then show "exp (- 1 / (real SAMPLE_RATE * t)) < 1" by simp
qed

lemma MultibandWDRC_ctor_envelope:
  "i < NUM_BANDS \<Longrightarrow> envelope (wdrc_bands (MultibandWDRC_ctor m) ! i) = Fin 0"
  by (simp add: MultibandWDRC_ctor_def setParameters_envelope WDRC_ctor_def)

text \<open>
  C10. The constructor sets the envelope to \<open>0\<close>, that is 0 dB, and \<^verbatim>\<open>setParameters\<close> and
  the constructor of the multiband processor leave it there; the level of silence would
  be \<open>linear_to_db 0 = -180\<close>. The first call of \<^verbatim>\<open>process\<close> smooths from this \<open>0\<close>:
  its envelope is \<open>(1 - alpha) * input_db\<close>, with the attack coefficient when
  \<open>input_db > 0\<close> and the release coefficient otherwise.
\<close>

theorem WDRC_ctor_envelope_zero:
  "envelope (WDRC_ctor u) = Fin 0 \<and>
   envelope (setParameters (WDRC_ctor u) p) = Fin 0 \<and>
   (\<forall>i<NUM_BANDS. envelope (wdrc_bands (MultibandWDRC_ctor m) ! i) = Fin 0) \<and>
   linear_to_db (Fin 0) = Fin (- 180) \<and>
   (bp_attack_time p = Fin ta \<and> 0 < ta \<and> bp_release_time p = Fin tr \<and> 0 < tr \<longrightarrow>
      envelope (snd (WDRC_process (setParameters (WDRC_ctor u) p) (Fin x))) =
        Fin (if 0 < 20 * log 10 (\<bar>x\<bar> + 1 / 10 ^ 9)
             then (1 - exp (- 1 / (real SAMPLE_RATE * ta))) * (20 * log 10 (\<bar>x\<bar> + 1 / 10 ^ 9))
             else (1 - exp (- 1 / (real SAMPLE_RATE * tr))) * (20 * log 10 (\<bar>x\<bar> + 1 / 10 ^ 9))))"
proof (intro conjI impI allI)
  show "envelope (WDRC_ctor u) = Fin 0" by (simp add: WDRC_ctor_def)
  then show e: "envelope (setParameters (WDRC_ctor u) p) = Fin 0"
    by (simp add: setParameters_envelope)
  show "envelope (wdrc_bands (MultibandWDRC_ctor m) ! i) = Fin 0" if "i < NUM_BANDS" for i
    using that by (rule MultibandWDRC_ctor_envelope)
  show "linear_to_db (Fin 0) = Fin (- 180)" by (rule linear_to_db_zero)
  assume "bp_attack_time p = Fin ta \<and> 0 < ta \<and> bp_release_time p = Fin tr \<and> 0 < tr"
  then have a: "alpha_attack (setParameters (WDRC_ctor u) p) = Fin (exp (- 1 / (real SAMPLE_RATE * ta)))"
    and r: "alpha_release (setParameters (WDRC_ctor u) p) = Fin (exp (- 1 / (real SAMPLE_RATE * tr)))"
    by (simp_all add: setParameters_alphas)
  show "envelope (snd (WDRC_process (setParameters (WDRC_ctor u) p) (Fin x))) =
        Fin (if 0 < 20 * log 10 (\<bar>x\<bar> + 1 / 10 ^ 9)
             then (1 - exp (- 1 / (real SAMPLE_RATE * ta))) * (20 * log 10 (\<bar>x\<bar> + 1 / 10 ^ 9))
             else (1 - exp (- 1 / (real SAMPLE_RATE * tr))) * (20 * log 10 (\<bar>x\<bar> + 1 / 10 ^ 9)))"
    unfolding WDRC_process_envelope linear_to_db_Fin next_envelope_Fin [OF a r e] by simp
qed

theorem WDRC_ctor_envelope_zero_witness:
  "bp_attack_time (BAND_PARAMS ! 0) = Fin (1 / 100) \<and> (0::real) < 1 / 100 \<and>
   bp_release_time (BAND_PARAMS ! 0) = Fin (1 / 10) \<and> (0::real) < 1 / 10 \<and>
   (0::nat) < NUM_BANDS \<and>
   envelope (WDRC_ctor zeroed_WDRC) = Fin 0 \<and>
   envelope (wdrc_bands (MultibandWDRC_ctor
      \<lparr>wdrc_bands = [zeroed_WDRC, zeroed_WDRC, zeroed_WDRC], real_buf = [], imag_buf = []\<rparr>) ! 0) = Fin 0 \<and>
   envelope (snd (WDRC_process (setParameters (WDRC_ctor zeroed_WDRC) (BAND_PARAMS ! 0)) (Fin 0))) =
     Fin ((1 - exp (- 1 / (real SAMPLE_RATE * (1 / 10)))) * (- 180))"
proof -
  have h: "bp_attack_time (BAND_PARAMS ! 0) = Fin (1 / 100) \<and> (0::real) < 1 / 100 \<and>
      bp_release_time (BAND_PARAMS ! 0) = Fin (1 / 10) \<and> (0::real) < 1 / 10"
    by (simp add: BAND_PARAMS_def)
  have n: "(0::nat) < NUM_BANDS" by (simp add: NUM_BANDS_def)
  have "log 10 ((10::real) ^ 9) = real 9" by (rule log_pow_cancel) simp_all
  moreover have "log 10 (1 / (10::real) ^ 9) = - log 10 (10 ^ 9)" by (rule log_recip)
  ultimately have l: "20 * log 10 (\<bar>0::real\<bar> + 1 / 10 ^ 9) = - 180" by simp
  show ?thesis
    using h n WDRC_ctor_envelope_zero [of zeroed_WDRC "BAND_PARAMS ! 0"
      "\<lparr>wdrc_bands = [zeroed_WDRC, zeroed_WDRC, zeroed_WDRC], real_buf = [], imag_buf = []\<rparr>"
      "1 / 100" "1 / 10" 0]
    unfolding l by simp
qed

lemma process_step_envelope:
  assumes "alpha_attack w = Fin aa" "alpha_release w = Fin ar" "envelope w = Fin e"
  shows "snd (WDRC_process w (Fin x)) =
     w\<lparr>envelope := Fin (20 * log 10 (\<bar>x\<bar> + 1 / 10 ^ 9) +
        (if e < 20 * log 10 (\<bar>x\<bar> + 1 / 10 ^ 9) then aa else ar) *
          (e - 20 * log 10 (\<bar>x\<bar> + 1 / 10 ^ 9)))\<rparr>"
proof -
  have "next_envelope w (linear_to_db (Fin x)) = Fin (20 * log 10 (\<bar>x\<bar> + 1 / 10 ^ 9) +
        (if e < 20 * log 10 (\<bar>x\<bar> + 1 / 10 ^ 9) then aa else ar) *
          (e - 20 * log 10 (\<bar>x\<bar> + 1 / 10 ^ 9)))"
    unfolding linear_to_db_Fin next_envelope_Fin [OF assms] by (simp add: algebra_simps)
  then show ?thesis by (simp add: WDRC_process_def)
qed

lemma process_repeated_envelope:
  assumes "alpha_attack w = Fin aa" "alpha_release w = Fin ar" "envelope w = Fin e"
    and "0 < aa" "0 < ar"
  shows "process_repeated w (Fin x) n =
     w\<lparr>envelope := Fin (20 * log 10 (\<bar>x\<bar> + 1 / 10 ^ 9) +
        (if e < 20 * log 10 (\<bar>x\<bar> + 1 / 10 ^ 9) then aa else ar) ^ n *
          (e - 20 * log 10 (\<bar>x\<bar> + 1 / 10 ^ 9)))\<rparr>"
  using assms(1-3)
proof (induction n arbitrary: w e)
  case 0
  then show ?case by simp
next
  case (Suc n)
  define d where "d = 20 * log 10 (\<bar>x\<bar> + 1 / 10 ^ 9)"
  define a where "a = (if e < d then aa else ar)"
  define e' where "e' = d + a * (e - d)"
  have a_pos: "0 < a" using assms(4,5) by (simp add: a_def)
  have step: "snd (WDRC_process w (Fin x)) = w\<lparr>envelope := Fin e'\<rparr>"
    using process_step_envelope [OF Suc.prems] by (simp add: e'_def a_def d_def)
  have same: "(e' < d) = (e < d)"
  proof -
    have "e' - d = a * (e - d)" by (simp add: e'_def)
    then have "(e' - d < 0) = (e - d < 0)" using a_pos by (simp add: mult_less_0_iff)
    then show ?thesis by simp
  qed
  have "process_repeated (w\<lparr>envelope := Fin e'\<rparr>) (Fin x) n =
      w\<lparr>envelope := Fin e'\<rparr>\<lparr>envelope := Fin (d + (if e' < d then aa else ar) ^ n * (e' - d))\<rparr>"
    unfolding d_def by (rule Suc.IH) (simp_all add: Suc.prems)
  then have "process_repeated w (Fin x) (Suc n) = w\<lparr>envelope := Fin (d + a ^ n * (e' - d))\<rparr>"
    using step same by (simp add: a_def)
  moreover have "a ^ n * (e' - d) = a ^ Suc n * (e - d)" by (simp add: e'_def)
  ultimately show ?case by (simp add: a_def d_def)
qed

lemma geometric_error_small:
  assumes "0 < a" "a < (1::real)" "0 < eps"
  shows "\<exists>N. \<forall>n\<ge>N. \<bar>a ^ n * c\<bar> < eps"
proof (cases "c = 0")
  case True
  with assms show ?thesis by simp
next
  case False
  then have "0 < eps / \<bar>c\<bar>" using assms by simp
  then obtain N where N: "a ^ N < eps / \<bar>c\<bar>" using assms real_arch_pow_inv by blast
  have "\<bar>a ^ n * c\<bar> < eps" if "N \<le> n" for n
  proof -
    have "a ^ n \<le> a ^ N" using that assms by (simp add: power_decreasing)
    with N have "a ^ n < eps / \<bar>c\<bar>" by simp
    then have "a ^ n * \<bar>c\<bar> < eps" using False by (simp add: pos_less_divide_eq)
    then show ?thesis using assms by (simp add: abs_mult)
  qed
  then show ?thesis by blast
qed

text \<open>
  In exact arithmetic, with positive attack and release times the two coefficients that
  \<^verbatim>\<open>setParameters\<close> computes lie strictly between 0 and 1. Feeding the same finite input
  \<open>x\<close> in \<open>n\<close> successive calls leaves the envelope at
  \<open>input_db + alpha ^ n * (e0 - input_db)\<close>, where \<open>alpha\<close> is the attack coefficient when
  the envelope starts below \<open>input_db\<close> and the release coefficient otherwise, so that from
  some number of calls on the envelope stays within 0.01 dB of \<open>input_db\<close>. This holds of
  real numbers only; the section on the envelope detector in binary32 shows what remains
  of it when every operation is rounded.
\<close>

lemma envelope_converges_exact:
  assumes "bp_attack_time p = Fin ta" and "0 < ta"
    and "bp_release_time p = Fin tr" and "0 < tr"
    and "envelope w0 = Fin e0"
  shows "\<exists>aa ar. alpha_attack (setParameters w0 p) = Fin aa \<and>
      alpha_release (setParameters w0 p) = Fin ar \<and>
      0 < aa \<and> aa < 1 \<and> 0 < ar \<and> ar < 1 \<and>
      (\<forall>n. envelope (process_repeated (setParameters w0 p) (Fin x) n) =
         Fin (20 * log 10 (\<bar>x\<bar> + 1 / 10 ^ 9) +
           (if e0 < 20 * log 10 (\<bar>x\<bar> + 1 / 10 ^ 9) then aa else ar) ^ n *
             (e0 - 20 * log 10 (\<bar>x\<bar> + 1 / 10 ^ 9)))) \<and>
      (\<exists>N. \<forall>n\<ge>N. \<exists>e. envelope (process_repeated (setParameters w0 p) (Fin x) n) = Fin e \<and>
         \<bar>e - 20 * log 10 (\<bar>x\<bar> + 1 / 10 ^ 9)\<bar> < 1 / 100)"
proof -
  define aa where "aa = exp (- 1 / (real SAMPLE_RATE * ta))"
  define ar where "ar = exp (- 1 / (real SAMPLE_RATE * tr))"
  define d where "d = 20 * log 10 (\<bar>x\<bar> + 1 / 10 ^ 9)"
  define a where "a = (if e0 < d then aa else ar)"
  let ?w = "setParameters w0 p"
  have A: "alpha_attack ?w = Fin aa" and R: "alpha_release ?w = Fin ar"
    using assms(1-4) by (simp_all add: setParameters_alphas aa_def ar_def)
  have E: "envelope ?w = Fin e0" using assms(5) by (simp add: setParameters_envelope)
  have aa: "0 < aa" "aa < 1"
    unfolding aa_def using assms(2) by (rule alpha_in_unit_interval)+
  have ar: "0 < ar" "ar < 1"
    unfolding ar_def using assms(4) by (rule alpha_in_unit_interval)+
  have a: "0 < a" "a < 1" using aa ar by (simp_all add: a_def)
  have env: "envelope (process_repeated ?w (Fin x) n) = Fin (d + a ^ n * (e0 - d))" for n
    unfolding process_repeated_envelope [OF A R E aa(1) ar(1)] by (simp add: a_def d_def)
  obtain N where N: "\<forall>n\<ge>N. \<bar>a ^ n * (e0 - d)\<bar> < 1 / 100"
    using geometric_error_small [OF a, of "1 / 100" "e0 - d"] by auto
  have "\<forall>n\<ge>N. \<exists>e. envelope (process_repeated ?w (Fin x) n) = Fin e \<and> \<bar>e - d\<bar> < 1 / 100"
    using N env by simp
  then have "\<exists>N. \<forall>n\<ge>N. \<exists>e. envelope (process_repeated ?w (Fin x) n) = Fin e \<and> \<bar>e - d\<bar> < 1 / 100"
    by blast
  with A R aa ar env show ?thesis unfolding a_def d_def by blast
qed

subsection \<open>The scenario of band 0\<close>

lemma exp_neg_upper: "0 \<le> t \<Longrightarrow> exp (- t) \<le> 1 / (1 + (t::real))"
proof -
  assume "0 \<le> t"
  have "1 + t \<le> exp t" by simp
  moreover have "0 < 1 + t" using \<open>0 \<le> t\<close> by simp
  ultimately have "1 / exp t \<le> 1 / (1 + t)" by (simp add: frac_le)
  then show ?thesis by (simp add: exp_minus inverse_eq_divide)
qed

lemma attack_alpha_band0_upper: "exp (- 1 / 441) \<le> (441 / 442 :: real)"
  using exp_neg_upper [of "1 / 441"] by simp

lemma full_scale_db_pos: "0 < 20 * log 10 (\<bar>1::real\<bar> + 1 / 10 ^ 9)"
  by simp

lemma ln_10_ge_2: "2 \<le> ln (10::real)"
proof -
  have "exp (2::real) = exp 1 * exp 1" by (simp add: exp_add [symmetric])
  also have "\<dots> \<le> 3 * 3" by (intro mult_mono exp_le) simp_all
  finally have "exp (2::real) \<le> 10" by simp
  then show ?thesis by (simp add: ln_ge_iff)
qed

lemma ten_powr_lower: "0 \<le> t \<Longrightarrow> 1 + 2 * t \<le> 10 powr (t::real)"
proof -
  assume t: "0 \<le> t"
  have "1 + 2 * t \<le> 1 + t * ln 10" using t ln_10_ge_2 by (simp add: mult_left_mono mult.commute)
  also have "\<dots> \<le> exp (t * ln 10)" by (rule exp_ge_add_one_self)
  finally show ?thesis by (simp add: powr_def)
qed

lemma ten_powr_quarter_fourth: "(10 powr (- (1 / 4))) powr 4 = (1 / 10 :: real)"
  by (simp only: powr_powr) (simp add: powr_minus_divide)

lemma ten_powr_quarter_bounds:
  "562 / 1000 < 10 powr (- (1 / 4) :: real)" "10 powr (- (1 / 4) :: real) < 5624 / 10000"
proof -
  show "562 / 1000 < 10 powr (- (1 / 4) :: real)"
  proof (rule ccontr)
    assume "\<not> 562 / 1000 < 10 powr (- (1 / 4) :: real)"
    then have "10 powr (- (1 / 4) :: real) \<le> 562 / 1000" by simp
    then have "(10 powr (- (1 / 4) :: real)) powr 4 \<le> (562 / 1000) powr 4"
      by (intro powr_mono2) simp_all
    then show False unfolding ten_powr_quarter_fourth by (simp add: power_divide)
  qed
  show "10 powr (- (1 / 4) :: real) < 5624 / 10000"
  proof (rule ccontr)
    assume "\<not> 10 powr (- (1 / 4) :: real) < 5624 / 10000"
    then have "5624 / 10000 \<le> 10 powr (- (1 / 4) :: real)" by simp
    then have "(5624 / 10000) powr 4 \<le> (10 powr (- (1 / 4) :: real)) powr 4"
      by (intro powr_mono2) simp_all
    then show False unfolding ten_powr_quarter_fourth by (simp add: power_divide)
  qed
qed

lemma band0_envelope_fields:
  "alpha_attack (band0_envelope e) = Fin (exp (- 1 / 441))"
  "alpha_release (band0_envelope e) = Fin (exp (- 1 / 4410))"
  "envelope (band0_envelope e) = Fin e"
  "threshold (band0_envelope e) = Fin (- 50)"
  "ratio (band0_envelope e) = Fin 2"
  "knee_width (band0_envelope e) = Fin 10"
  "band_gain (band0_envelope e) = Fin 15"
  by (simp_all add: band0_envelope_def band_WDRC_0)

lemma band0_full_compression:
  "5 < d \<Longrightarrow> compression_gain (band0_envelope e) (Fin d) = Fin d"
  using compression_gain_Fin [of "band0_envelope e" 2 10 d]
  by (simp add: band0_envelope_fields gain_curve_def linear_formula_def)

lemma band0_from_minus30_envelope:
  "next_envelope (band0_envelope (- 30)) (linear_to_db (Fin 1)) =
     Fin (exp (- 1 / 441) * (- 30) + (1 - exp (- 1 / 441)) * (20 * log 10 (\<bar>1\<bar> + 1 / 10 ^ 9)))"
  "- 30 + 30 / 442 < exp (- 1 / 441) * (- 30) + (1 - exp (- 1 / 441)) * (20 * log 10 (\<bar>1::real\<bar> + 1 / 10 ^ 9))"
proof -
  have d: "0 < 20 * log 10 (\<bar>1::real\<bar> + 1 / 10 ^ 9)" by (rule full_scale_db_pos)
  then have "(- 30::real) < 20 * log 10 (\<bar>1::real\<bar> + 1 / 10 ^ 9)" by linarith
  then show "next_envelope (band0_envelope (- 30)) (linear_to_db (Fin 1)) =
     Fin (exp (- 1 / 441) * (- 30) + (1 - exp (- 1 / 441)) * (20 * log 10 (\<bar>1\<bar> + 1 / 10 ^ 9)))"
    unfolding linear_to_db_Fin
    by (simp only: next_envelope_Fin [OF band0_envelope_fields(1-3)] if_True)
  have a: "1 / 442 \<le> 1 - exp (- 1 / 441 :: real)" using attack_alpha_band0_upper by simp
  then have "0 < (1 - exp (- 1 / 441 :: real)) * (20 * log 10 (\<bar>1::real\<bar> + 1 / 10 ^ 9))"
    using d by (intro mult_pos_pos) simp_all
  moreover have "exp (- 1 / 441) * (- 30) = - 30 + (1 - exp (- 1 / 441 :: real)) * 30"
    by (simp add: algebra_simps)
  moreover have "30 / 442 \<le> (1 - exp (- 1 / 441 :: real)) * 30" using a by simp
  ultimately show "- 30 + 30 / 442 <
      exp (- 1 / 441) * (- 30) + (1 - exp (- 1 / 441)) * (20 * log 10 (\<bar>1::real\<bar> + 1 / 10 ^ 9))"
    by linarith
qed

lemma band0_output_below:
  assumes "20 + 30 / 442 < d"
  shows "10 powr ((- d + 15) / 20) < (559 / 1000 :: real)"
proof -
  have "(- d + 15) / 20 < - (1 / 4) + - (3 / 884)" using assms by simp
  then have "10 powr ((- d + 15) / 20) < 10 powr (- (1 / 4) + - (3 / 884) :: real)"
    by (intro powr_less_mono) simp_all
  also have "\<dots> = 10 powr (- (1 / 4)) * 10 powr (- (3 / 884) :: real)" by (rule powr_add)
  also have "\<dots> \<le> (5624 / 10000) * (884 / 890)"
  proof (rule mult_mono)
    show "10 powr (- (1 / 4) :: real) \<le> 5624 / 10000" using ten_powr_quarter_bounds(2) by simp
    have "1 + 2 * (3 / 884) \<le> 10 powr (3 / 884 :: real)" by (rule ten_powr_lower) simp
    then have "1 / 10 powr (3 / 884 :: real) \<le> 1 / (1 + 2 * (3 / 884))"
      by (intro frac_le) simp_all
    then show "10 powr (- (3 / 884) :: real) \<le> 884 / 890" by (simp add: powr_minus_divide)
  qed simp_all
  also have "\<dots> < (559 / 1000 :: real)" by simp
  finally show ?thesis .
qed

lemma band0_from_minus30_output:
  "is_finite (unlimited_output (band0_envelope (- 30)) (Fin 1))"
  "fin_value (unlimited_output (band0_envelope (- 30)) (Fin 1)) < 559 / 1000"
  "compression_gain (band0_envelope (- 30))
     (fsub (next_envelope (band0_envelope (- 30)) (linear_to_db (Fin 1)))
           (threshold (band0_envelope (- 30)))) \<noteq> Fin 20"
proof -
  define e' where "e' = exp (- 1 / 441) * (- 30) +
      (1 - exp (- 1 / 441)) * (20 * log 10 (\<bar>1::real\<bar> + 1 / 10 ^ 9))"
  have env: "next_envelope (band0_envelope (- 30)) (linear_to_db (Fin 1)) = Fin e'"
    and low: "- 30 + 30 / 442 < e'"
    unfolding e'_def by (rule band0_from_minus30_envelope)+
  have diff: "fsub (Fin e') (threshold (band0_envelope (- 30))) = Fin (e' + 50)"
    by (simp add: band0_envelope_fields)
  have big: "20 + 30 / 442 < e' + 50" using low by simp
  then have "5 < e' + 50" by simp
  then have gain: "compression_gain (band0_envelope (- 30)) (Fin (e' + 50)) = Fin (e' + 50)"
    by (rule band0_full_compression)
  have out: "unlimited_output (band0_envelope (- 30)) (Fin 1) =
      Fin (10 powr ((- (e' + 50) + 15) / 20))"
    by (simp add: unlimited_output_def Let_def env diff gain db_to_linear_Fin
        band0_envelope_fields)
  show "is_finite (unlimited_output (band0_envelope (- 30)) (Fin 1))" by (simp add: out)
  show "fin_value (unlimited_output (band0_envelope (- 30)) (Fin 1)) < 559 / 1000"
    using band0_output_below [OF big] by (simp add: out)
  show "compression_gain (band0_envelope (- 30))
     (fsub (next_envelope (band0_envelope (- 30)) (linear_to_db (Fin 1)))
           (threshold (band0_envelope (- 30)))) \<noteq> Fin 20"
    using big by (simp add: env diff gain)
qed

lemma limit_output_inside: "\<bar>y\<bar> \<le> 99 / 100 \<Longrightarrow> limit_output (Fin y) = Fin y"
  by (simp add: limit_output_Fin)

text \<open>
  C6 as stated fails. A compressor of band 0 whose envelope is at -30 dB does not keep it
  there in a call with the input magnitude 1.0: the input level is above 0 dB, the attack
  branch moves the envelope above -29.94 dB before the gain is computed, so that
  \<open>diff\<close> and \<open>gain_db\<close> are not 20 dB and the output before the limiter is below
  0.559, not about 0.562.
\<close>

theorem band0_scenario_counterexample:
  "next_envelope (band0_envelope (- 30)) (linear_to_db (Fin 1)) \<noteq> Fin (- 30) \<and>
   compression_gain (band0_envelope (- 30))
     (fsub (next_envelope (band0_envelope (- 30)) (linear_to_db (Fin 1)))
           (threshold (band0_envelope (- 30)))) \<noteq> Fin 20 \<and>
   is_finite (unlimited_output (band0_envelope (- 30)) (Fin 1)) \<and>
   fin_value (unlimited_output (band0_envelope (- 30)) (Fin 1)) < 559 / 1000"
proof -
  have "next_envelope (band0_envelope (- 30)) (linear_to_db (Fin 1)) \<noteq> Fin (- 30)"
    using band0_from_minus30_envelope(2)
    by (simp only: band0_from_minus30_envelope(1)) simp
  then show ?thesis using band0_from_minus30_output by blast
qed

text \<open>
  C6, as amended. With the parameters of band 0, when the envelope after the update of
  step 2 is at -30 dB in a call with the input magnitude 1.0, then \<open>diff = 20\<close> dB is
  above half the knee width, \<open>gain_db = (2 - 1) * 20 = 20\<close> dB, the total gain is -5 dB,
  the multiplier \<open>10 ^ (-5 / 20)\<close> lies between 0.562 and 0.563, and it is the output
  before the limiter and the value returned.
\<close>

theorem band0_scenario:
  assumes "threshold w = Fin (- 50)" and "ratio w = Fin 2" and "knee_width w = Fin 10"
    and "band_gain w = Fin 15"
    and "next_envelope w (linear_to_db (Fin 1)) = Fin (- 30)"
  shows "fsub (next_envelope w (linear_to_db (Fin 1))) (threshold w) = Fin 20 \<and>
     fgt (Fin 20) (fdiv (knee_width w) (Fin 2)) \<and>
     compression_gain w (Fin 20) = Fin ((2 - 1) * 20) \<and>
     fadd (fneg (Fin 20)) (band_gain w) = Fin (- 5) \<and>
     db_to_linear (Fin (- 5)) = Fin (10 powr (- 5 / 20)) \<and>
     562 / 1000 < 10 powr (- 5 / 20 :: real) \<and> 10 powr (- 5 / 20 :: real) < 563 / 1000 \<and>
     unlimited_output w (Fin 1) = Fin (10 powr (- 5 / 20)) \<and>
     fst (WDRC_process w (Fin 1)) = Fin (10 powr (- 5 / 20))"
proof -
  have diff: "fsub (next_envelope w (linear_to_db (Fin 1))) (threshold w) = Fin 20"
    using assms(1,5) by simp
  have knee: "fgt (Fin 20) (fdiv (knee_width w) (Fin 2))" using assms(3) by simp
  have gain: "compression_gain w (Fin 20) = Fin 20"
    using compression_gain_Fin [OF assms(2,3), of 20]
    by (simp add: gain_curve_def linear_formula_def)
  have total: "fadd (fneg (Fin 20)) (band_gain w) = Fin (- 5)" using assms(4) by simp
  have lin: "db_to_linear (Fin (- 5)) = Fin (10 powr (- 5 / 20))" by (rule db_to_linear_Fin)
  have q: "(- 5 / 20 :: real) = - (1 / 4)" by simp
  have b: "562 / 1000 < 10 powr (- 5 / 20 :: real)" "10 powr (- 5 / 20 :: real) < 563 / 1000"
    unfolding q using ten_powr_quarter_bounds by simp_all
  have out: "unlimited_output w (Fin 1) = Fin (10 powr (- 5 / 20))"
    unfolding unlimited_output_def Let_def diff gain total lin by simp
  have "\<bar>10 powr (- 5 / 20 :: real)\<bar> \<le> 99 / 100" using b by simp
  then have "fst (WDRC_process w (Fin 1)) = Fin (10 powr (- 5 / 20))"
    unfolding WDRC_process_fst out by (rule limit_output_inside)
  with diff knee gain total lin b out show ?thesis by simp
qed

theorem band0_scenario_witness:
  "threshold (band0_envelope ((- 30 - (1 - exp (- 1 / 441)) * (20 * log 10 (\<bar>1\<bar> + 1 / 10 ^ 9))) / exp (- 1 / 441))) = Fin (- 50) \<and>
   ratio (band0_envelope ((- 30 - (1 - exp (- 1 / 441)) * (20 * log 10 (\<bar>1\<bar> + 1 / 10 ^ 9))) / exp (- 1 / 441))) = Fin 2 \<and>
   knee_width (band0_envelope ((- 30 - (1 - exp (- 1 / 441)) * (20 * log 10 (\<bar>1\<bar> + 1 / 10 ^ 9))) / exp (- 1 / 441))) = Fin 10 \<and>
   band_gain (band0_envelope ((- 30 - (1 - exp (- 1 / 441)) * (20 * log 10 (\<bar>1\<bar> + 1 / 10 ^ 9))) / exp (- 1 / 441))) = Fin 15 \<and>
   next_envelope (band0_envelope ((- 30 - (1 - exp (- 1 / 441)) * (20 * log 10 (\<bar>1\<bar> + 1 / 10 ^ 9))) / exp (- 1 / 441)))
     (linear_to_db (Fin 1)) = Fin (- 30) \<and>
   fst (WDRC_process (band0_envelope ((- 30 - (1 - exp (- 1 / 441)) * (20 * log 10 (\<bar>1\<bar> + 1 / 10 ^ 9))) / exp (- 1 / 441)))
     (Fin 1)) = Fin (10 powr (- 5 / 20))"
proof -
  define d :: real where "d = 20 * log 10 (\<bar>1\<bar> + 1 / 10 ^ 9)"
  define a :: real where "a = exp (- 1 / 441)"
  define e0 where "e0 = (- 30 - (1 - a) * d) / a"
  have d: "0 < d" unfolding d_def by (rule full_scale_db_pos)
  have a: "0 < a" "a < 1" unfolding a_def by simp_all
  have "0 < (1 - a) * d" using d a by (intro mult_pos_pos) simp_all
  then have "(- 30 - (1 - a) * d) < 0" by simp
  then have "e0 < 0" unfolding e0_def using a by (simp add: divide_neg_pos)
  then have lt: "e0 < d" using d by simp
  have "a * e0 + (1 - a) * d = - 30" unfolding e0_def using a by (simp add: field_simps)
  then have env: "next_envelope (band0_envelope e0) (linear_to_db (Fin 1)) = Fin (- 30)"
    unfolding linear_to_db_Fin next_envelope_Fin [OF band0_envelope_fields(1-3)]
    using lt by (simp add: a_def d_def)
  have f: "threshold (band0_envelope e0) = Fin (- 50)" "ratio (band0_envelope e0) = Fin 2"
    "knee_width (band0_envelope e0) = Fin 10" "band_gain (band0_envelope e0) = Fin 15"
    by (simp_all add: band0_envelope_fields)
  from band0_scenario [OF f env] f env
  have "threshold (band0_envelope e0) = Fin (- 50) \<and> ratio (band0_envelope e0) = Fin 2 \<and>
    knee_width (band0_envelope e0) = Fin 10 \<and> band_gain (band0_envelope e0) = Fin 15 \<and>
    next_envelope (band0_envelope e0) (linear_to_db (Fin 1)) = Fin (- 30) \<and>
    fst (WDRC_process (band0_envelope e0) (Fin 1)) = Fin (10 powr (- 5 / 20))"
    by blast
  then show ?thesis unfolding e0_def a_def d_def .
qed

section \<open>Properties of the loop over the bins\<close>

lemma process_bin_none: "bin_band c i = - 1 \<Longrightarrow> process_bin c m i = m"
  by (simp add: process_bin_def bin_band_def Let_def)

lemma bin_band_range:
  "bin_band c i = - 1 \<or> (0 \<le> bin_band c i \<and> bin_band c i < int (cfg_num_bands c))"
  using getBandIndex_from_range [of "cfg_limits c" "cfg_num_bands c" "bin_frequency c i" 0]
  by (auto simp: bin_band_def getBandIndex_def)

lemma process_bin_real_other:
  "k \<noteq> i \<Longrightarrow> k \<noteq> cfg_fft_size c - i \<Longrightarrow> real_buf (process_bin c m i) ! k = real_buf m ! k"
  by (simp add: process_bin_def Let_def)

lemma process_bin_imag_other:
  "k \<noteq> i \<Longrightarrow> k \<noteq> cfg_fft_size c - i \<Longrightarrow> imag_buf (process_bin c m i) ! k = imag_buf m ! k"
  by (simp add: process_bin_def Let_def)

lemma process_bin_lengths:
  "length (real_buf (process_bin c m i)) = length (real_buf m)"
  "length (imag_buf (process_bin c m i)) = length (imag_buf m)"
  "length (wdrc_bands (process_bin c m i)) = length (wdrc_bands m)"
  by (simp_all add: process_bin_def Let_def)

lemma band_loop_stop: "\<not> i < cfg_fft_size c div 2 \<Longrightarrow> band_loop c m i = m"
  by (subst band_loop.simps) simp

lemma band_loop_step:
  "i < cfg_fft_size c div 2 \<Longrightarrow> band_loop c m i = band_loop c (process_bin c m i) (i + 1)"
  by (subst band_loop.simps) simp

lemma band_loop_lengths:
  "length (real_buf (band_loop c m i)) = length (real_buf m) \<and>
   length (imag_buf (band_loop c m i)) = length (imag_buf m) \<and>
   length (wdrc_bands (band_loop c m i)) = length (wdrc_bands m)"
proof (induction c m i rule: band_loop.induct)
  case (1 c m i)
  show ?case
  proof (cases "i < cfg_fft_size c div 2")
    case True
    with "1.IH" show ?thesis by (simp add: band_loop_step process_bin_lengths)
  next
    case False
    then show ?thesis by (simp add: band_loop_stop)
  qed
qed

text \<open>Bin \<open>k\<close> is written by no iteration from \<open>i0\<close> on.\<close>

lemma band_loop_untouched:
  assumes "\<forall>i. i0 \<le> i \<and> i < cfg_fft_size c div 2 \<and> bin_band c i \<noteq> - 1 \<longrightarrow>
      k \<noteq> i \<and> k \<noteq> cfg_fft_size c - i"
  shows "real_buf (band_loop c m i0) ! k = real_buf m ! k \<and>
     imag_buf (band_loop c m i0) ! k = imag_buf m ! k"
  using assms
proof (induction c m i0 rule: band_loop.induct)
  case (1 c m i)
  show ?case
  proof (cases "i < cfg_fft_size c div 2")
    case False
    then show ?thesis by (simp add: band_loop_stop)
  next
    case True
    have later: "\<forall>j. i + 1 \<le> j \<and> j < cfg_fft_size c div 2 \<and> bin_band c j \<noteq> - 1 \<longrightarrow>
        k \<noteq> j \<and> k \<noteq> cfg_fft_size c - j"
      using "1.prems" by simp
    have here: "real_buf (process_bin c m i) ! k = real_buf m ! k \<and>
        imag_buf (process_bin c m i) ! k = imag_buf m ! k"
    proof (cases "bin_band c i = - 1")
      case True
      then show ?thesis by (simp add: process_bin_none)
    next
      case False
      with "1.prems" \<open>i < cfg_fft_size c div 2\<close>
      have "k \<noteq> i \<and> k \<noteq> cfg_fft_size c - i" by simp
      then show ?thesis by (simp add: process_bin_real_other process_bin_imag_other)
    qed
    from "1.IH" [OF True later] here show ?thesis by (simp add: band_loop_step [OF True])
  qed
qed

lemma process_bin_set_bin:
  assumes "i \<noteq> h" and "cfg_fft_size c - i \<noteq> h"
  shows "process_bin c (set_bin h re im m) i = set_bin h re im (process_bin c m i)"
  using assms
  by (simp add: process_bin_def set_bin_def Let_def list_update_swap [of h])

lemma band_loop_set_bin:
  assumes "h = cfg_fft_size c div 2"
  shows "band_loop c (set_bin h re im m) i = set_bin h re im (band_loop c m i)"
  using assms
proof (induction c m i rule: band_loop.induct)
  case (1 c m i)
  show ?case
  proof (cases "i < cfg_fft_size c div 2")
    case False
    then show ?thesis by (simp add: band_loop_stop)
  next
    case True
    with "1.prems" have "i \<noteq> h" "cfg_fft_size c - i \<noteq> h" by auto
    then have "process_bin c (set_bin h re im m) i = set_bin h re im (process_bin c m i)"
      by (rule process_bin_set_bin)
    with "1.IH" [OF True "1.prems"] show ?thesis by (simp add: band_loop_step [OF True])
  qed
qed

text \<open>
  C8. The loop over the bins \<open>0 \<le> i < N / 2\<close> leaves the real and the imaginary value of
  every bin of this range that classifies as none as they were. The Nyquist bin \<open>N / 2\<close>
  is not written, and it is not read either: replacing its two values before the loop
  is the same as replacing them after it. An upper bin \<open>k\<close> in \<open>(N / 2, N)\<close> changes only
  as the mirror of bin \<open>N - k\<close>, so it keeps its values when that bin classifies as none;
  the mirror index \<open>N - i\<close> of a bin \<open>0 < i < N / 2\<close> lies in \<open>(N / 2, N)\<close>.
\<close>

theorem band_loop_frame:
  assumes "length (real_buf m) = cfg_fft_size c" and "length (imag_buf m) = cfg_fft_size c"
  shows "(\<forall>k. k < cfg_fft_size c div 2 \<and> bin_band c k = - 1 \<longrightarrow>
        real_buf (band_loop c m 0) ! k = real_buf m ! k \<and>
        imag_buf (band_loop c m 0) ! k = imag_buf m ! k) \<and>
     real_buf (band_loop c m 0) ! (cfg_fft_size c div 2) = real_buf m ! (cfg_fft_size c div 2) \<and>
     imag_buf (band_loop c m 0) ! (cfg_fft_size c div 2) = imag_buf m ! (cfg_fft_size c div 2) \<and>
     (\<forall>re im. band_loop c (set_bin (cfg_fft_size c div 2) re im m) 0 =
        set_bin (cfg_fft_size c div 2) re im (band_loop c m 0)) \<and>
     (\<forall>k. cfg_fft_size c div 2 < k \<and> k < cfg_fft_size c \<and> bin_band c (cfg_fft_size c - k) = - 1 \<longrightarrow>
        real_buf (band_loop c m 0) ! k = real_buf m ! k \<and>
        imag_buf (band_loop c m 0) ! k = imag_buf m ! k) \<and>
     (\<forall>i. 0 < i \<and> i < cfg_fft_size c div 2 \<longrightarrow>
        cfg_fft_size c div 2 < cfg_fft_size c - i \<and> cfg_fft_size c - i < cfg_fft_size c) \<and>
     length (real_buf (band_loop c m 0)) = cfg_fft_size c \<and>
     length (imag_buf (band_loop c m 0)) = cfg_fft_size c"
proof (intro conjI allI impI)
  fix k
  assume k: "k < cfg_fft_size c div 2 \<and> bin_band c k = - 1"
  have "\<forall>i. 0 \<le> i \<and> i < cfg_fft_size c div 2 \<and> bin_band c i \<noteq> - 1 \<longrightarrow>
      k \<noteq> i \<and> k \<noteq> cfg_fft_size c - i"
    using k by auto
  then have u: "real_buf (band_loop c m 0) ! k = real_buf m ! k \<and>
      imag_buf (band_loop c m 0) ! k = imag_buf m ! k"
    by (rule band_loop_untouched)
  from u show "real_buf (band_loop c m 0) ! k = real_buf m ! k" by simp
  from u show "imag_buf (band_loop c m 0) ! k = imag_buf m ! k" by simp
next
  have "\<forall>i. 0 \<le> i \<and> i < cfg_fft_size c div 2 \<and> bin_band c i \<noteq> - 1 \<longrightarrow>
      cfg_fft_size c div 2 \<noteq> i \<and> cfg_fft_size c div 2 \<noteq> cfg_fft_size c - i"
    by auto
  then have u: "real_buf (band_loop c m 0) ! (cfg_fft_size c div 2) = real_buf m ! (cfg_fft_size c div 2) \<and>
      imag_buf (band_loop c m 0) ! (cfg_fft_size c div 2) = imag_buf m ! (cfg_fft_size c div 2)"
    by (rule band_loop_untouched)
  from u show "real_buf (band_loop c m 0) ! (cfg_fft_size c div 2) = real_buf m ! (cfg_fft_size c div 2)"
    by simp
  from u show "imag_buf (band_loop c m 0) ! (cfg_fft_size c div 2) = imag_buf m ! (cfg_fft_size c div 2)"
    by simp
next
  fix re im
  show "band_loop c (set_bin (cfg_fft_size c div 2) re im m) 0 =
        set_bin (cfg_fft_size c div 2) re im (band_loop c m 0)"
    by (rule band_loop_set_bin) simp
next
  fix k
  assume k: "cfg_fft_size c div 2 < k \<and> k < cfg_fft_size c \<and> bin_band c (cfg_fft_size c - k) = - 1"
  have "\<forall>i. 0 \<le> i \<and> i < cfg_fft_size c div 2 \<and> bin_band c i \<noteq> - 1 \<longrightarrow>
      k \<noteq> i \<and> k \<noteq> cfg_fft_size c - i"
  proof (intro allI impI)
    fix i
    assume i: "0 \<le> i \<and> i < cfg_fft_size c div 2 \<and> bin_band c i \<noteq> - 1"
    have "k \<noteq> cfg_fft_size c - i"
    proof
      assume "k = cfg_fft_size c - i"
      with i k have "cfg_fft_size c - k = i" by auto
      with i k show False by simp
    qed
    with i k show "k \<noteq> i \<and> k \<noteq> cfg_fft_size c - i" by auto
  qed
  then have u: "real_buf (band_loop c m 0) ! k = real_buf m ! k \<and>
      imag_buf (band_loop c m 0) ! k = imag_buf m ! k"
    by (rule band_loop_untouched)
  from u show "real_buf (band_loop c m 0) ! k = real_buf m ! k" by simp
  from u show "imag_buf (band_loop c m 0) ! k = imag_buf m ! k" by simp
next
  fix i
  assume i: "0 < i \<and> i < cfg_fft_size c div 2"
  then show "cfg_fft_size c div 2 < cfg_fft_size c - i" by auto
  from i show "cfg_fft_size c - i < cfg_fft_size c" by auto
next
  show "length (real_buf (band_loop c m 0)) = cfg_fft_size c"
    using assms by (simp add: band_loop_lengths)
  show "length (imag_buf (band_loop c m 0)) = cfg_fft_size c"
    using assms by (simp add: band_loop_lengths)
qed

lemma zeroed_processor_buffers:
  "length (real_buf zeroed_processor) = cfg_fft_size config_h"
  "length (imag_buf zeroed_processor) = cfg_fft_size config_h"
  "length (wdrc_bands zeroed_processor) = cfg_num_bands config_h"
  by (simp_all add: zeroed_processor_def MultibandWDRC_ctor_def config_h_def)

lemma bin_band_config_h_0: "bin_band config_h 0 = - 1"
  by (simp add: bin_band_def config_h_def bin_frequency_def getBandIndex_def BAND_LIMITS_def
      NUM_BANDS_def FFT_SIZE_def SAMPLE_RATE_def getBandIndex_from.simps in_band_def fge_def)

lemma bin_band_config_h_1: "bin_band config_h 1 = - 1"
  by (simp add: bin_band_def config_h_def bin_frequency_def getBandIndex_def BAND_LIMITS_def
      NUM_BANDS_def FFT_SIZE_def SAMPLE_RATE_def getBandIndex_from.simps in_band_def fge_def)

theorem band_loop_frame_witness:
  "length (real_buf zeroed_processor) = cfg_fft_size config_h \<and>
   length (imag_buf zeroed_processor) = cfg_fft_size config_h \<and>
   0 < cfg_fft_size config_h div 2 \<and> bin_band config_h 0 = - 1 \<and>
   real_buf (band_loop config_h zeroed_processor 0) ! 0 = real_buf zeroed_processor ! 0 \<and>
   imag_buf (band_loop config_h zeroed_processor 0) ! 0 = imag_buf zeroed_processor ! 0 \<and>
   real_buf (band_loop config_h zeroed_processor 0) ! (cfg_fft_size config_h div 2) =
     real_buf zeroed_processor ! (cfg_fft_size config_h div 2) \<and>
   band_loop config_h (set_bin (cfg_fft_size config_h div 2) (Fin 1) (Fin 2) zeroed_processor) 0 =
     set_bin (cfg_fft_size config_h div 2) (Fin 1) (Fin 2) (band_loop config_h zeroed_processor 0) \<and>
   cfg_fft_size config_h div 2 < 511 \<and> 511 < cfg_fft_size config_h \<and>
   bin_band config_h (cfg_fft_size config_h - 511) = - 1 \<and>
   real_buf (band_loop config_h zeroed_processor 0) ! 511 = real_buf zeroed_processor ! 511 \<and>
   imag_buf (band_loop config_h zeroed_processor 0) ! 511 = imag_buf zeroed_processor ! 511 \<and>
   (0::nat) < 10 \<and> 10 < cfg_fft_size config_h div 2 \<and>
   cfg_fft_size config_h div 2 < cfg_fft_size config_h - 10 \<and>
   cfg_fft_size config_h - 10 < cfg_fft_size config_h"
proof -
  have n: "0 < cfg_fft_size config_h div 2" "cfg_fft_size config_h div 2 < 511"
    "511 < cfg_fft_size config_h" "(0::nat) < 10" "10 < cfg_fft_size config_h div 2"
    by (simp_all add: config_h_def FFT_SIZE_def)
  have "cfg_fft_size config_h - 511 = 1" by (simp add: config_h_def FFT_SIZE_def)
  then have b: "bin_band config_h (cfg_fft_size config_h - 511) = - 1"
    by (simp only: bin_band_config_h_1)
  show ?thesis
    using band_loop_frame [OF zeroed_processor_buffers(1,2)] zeroed_processor_buffers(1,2)
      bin_band_config_h_0 n b
    by blast
qed

lemma band_loop_all_none:
  assumes "\<forall>j < cfg_fft_size c div 2. bin_band c j = - 1"
  shows "band_loop c m i = m"
  using assms
proof (induction c m i rule: band_loop.induct)
  case (1 c m i)
  show ?case
  proof (cases "i < cfg_fft_size c div 2")
    case False
    then show ?thesis by (simp add: band_loop_stop)
  next
    case True
    with "1.prems" have "process_bin c m i = m" by (simp add: process_bin_none)
    with "1.IH" [OF True "1.prems"] show ?thesis by (simp add: band_loop_step [OF True])
  qed
qed

text \<open>
  C9. For every table of \<open>nb + 1\<close> boundaries, increasing or not, and every frequency
  (not-a-number and the infinities included) the classifier returns \<open>-1\<close> or a band index
  in \<open>[0, nb)\<close>, and every index that the scan reads lies inside the table; it returns
  \<open>-1\<close> when no half-open interval matches. A bin with the
  answer \<open>-1\<close> leaves the processor as it is, and when every bin has this answer the
  whole loop does.
\<close>

theorem getBandIndex_total:
  assumes "length limits = nb + 1"
  shows "(getBandIndex limits nb f = - 1 \<or>
        (0 \<le> getBandIndex limits nb f \<and> getBandIndex limits nb f < int nb)) \<and>
     (\<forall>i<nb. i < length limits \<and> i + 1 < length limits) \<and>
     ((\<forall>j<nb. \<not> in_band limits j f) \<longrightarrow> getBandIndex limits nb f = - 1) \<and>
     (cfg_limits c = limits \<and> cfg_num_bands c = nb \<and>
        getBandIndex limits nb (bin_frequency c i) = - 1 \<longrightarrow> process_bin c m i = m) \<and>
     (cfg_limits c = limits \<and> cfg_num_bands c = nb \<and>
        (\<forall>j < cfg_fft_size c div 2. getBandIndex limits nb (bin_frequency c j) = - 1) \<longrightarrow>
        band_loop c m 0 = m)"
proof (intro conjI impI)
  show "getBandIndex limits nb f = - 1 \<or>
        (0 \<le> getBandIndex limits nb f \<and> getBandIndex limits nb f < int nb)"
    using getBandIndex_from_range [of limits nb f 0] by (auto simp: getBandIndex_def)
  show "\<forall>i<nb. i < length limits \<and> i + 1 < length limits"
    using assms by simp
  show "getBandIndex limits nb f = - 1" if "\<forall>j<nb. \<not> in_band limits j f"
    using that by (simp add: getBandIndex_def getBandIndex_from_none)
  show "process_bin c m i = m"
    if "cfg_limits c = limits \<and> cfg_num_bands c = nb \<and>
        getBandIndex limits nb (bin_frequency c i) = - 1"
    using that by (intro process_bin_none) (simp add: bin_band_def)
  show "band_loop c m 0 = m"
    if "cfg_limits c = limits \<and> cfg_num_bands c = nb \<and>
        (\<forall>j < cfg_fft_size c div 2. getBandIndex limits nb (bin_frequency c j) = - 1)"
    using that by (intro band_loop_all_none) (simp add: bin_band_def)
qed

lemma decreasing_no_band: "\<not> in_band (cfg_limits decreasing_config) j f" if "j < 3"
proof -
  have "\<not> (fle a f \<and> flt f b)" if "flt b a" for a b
    using that by (cases a; cases b; cases f) auto
  moreover have "flt (cfg_limits decreasing_config ! (j + 1)) (cfg_limits decreasing_config ! j)"
    using \<open>j < 3\<close> by (auto simp: decreasing_config_def less_Suc_eq numeral_3_eq_3)
  ultimately show ?thesis by (simp add: in_band_def fge_def)
qed

theorem getBandIndex_total_witness:
  "length (cfg_limits decreasing_config) = cfg_num_bands decreasing_config + 1 \<and>
   \<not> increasing (cfg_limits decreasing_config) \<and>
   getBandIndex (cfg_limits decreasing_config) (cfg_num_bands decreasing_config)
     (bin_frequency decreasing_config 12) = - 1 \<and>
   process_bin decreasing_config zeroed_processor 12 = zeroed_processor \<and>
   band_loop decreasing_config zeroed_processor 0 = zeroed_processor \<and>
   getBandIndex BAND_LIMITS NUM_BANDS (Fin 1000) = 1 \<and> (1::int) < int NUM_BANDS \<and>
   2 < cfg_num_bands decreasing_config \<and> 2 + 1 < length (cfg_limits decreasing_config)"
proof -
  have len: "length (cfg_limits decreasing_config) = cfg_num_bands decreasing_config + 1"
    by (simp add: decreasing_config_def config_h_def NUM_BANDS_def)
  have nb: "cfg_num_bands decreasing_config = 3"
    by (simp add: decreasing_config_def config_h_def NUM_BANDS_def)
  have none: "\<forall>j < cfg_num_bands decreasing_config. \<not> in_band (cfg_limits decreasing_config) j f" for f
    unfolding nb using decreasing_no_band by blast
  have all: "getBandIndex (cfg_limits decreasing_config) (cfg_num_bands decreasing_config) f = - 1"
    for f
    using getBandIndex_total [OF len, of f] none by blast
  have "\<not> flt (Fin 8000) (Fin 4000)" by simp
  then have ninc: "\<not> increasing (cfg_limits decreasing_config)"
    unfolding increasing_def decreasing_config_def
    by (simp add: less_Suc_eq numeral_eq_Suc ex_disj_distrib)
  have p: "process_bin decreasing_config zeroed_processor 12 = zeroed_processor"
    using getBandIndex_total [OF len, of _ decreasing_config 12 zeroed_processor] all by blast
  have l: "band_loop decreasing_config zeroed_processor 0 = zeroed_processor"
    using getBandIndex_total [OF len, of _ decreasing_config _ zeroed_processor] all by blast
  have len2: "length BAND_LIMITS = NUM_BANDS + 1" by (simp add: BAND_LIMITS_def NUM_BANDS_def)
  have "getBandIndex BAND_LIMITS NUM_BANDS (Fin 1000) = 1" by (rule classify_1000)
  moreover have "(1::int) < int NUM_BANDS" by (simp add: NUM_BANDS_def)
  moreover have "2 < cfg_num_bands decreasing_config" by (simp add: nb)
  moreover have "2 + 1 < length (cfg_limits decreasing_config)"
  proof -
    have "\<forall>i<cfg_num_bands decreasing_config. i < length (cfg_limits decreasing_config) \<and>
        i + 1 < length (cfg_limits decreasing_config)"
      using getBandIndex_total [OF len] by blast
    moreover have "2 < cfg_num_bands decreasing_config" by (simp add: nb)
    ultimately show ?thesis by blast
  qed
  ultimately show ?thesis using len ninc all p l by blast
qed

section \<open>Properties of the whole block transform\<close>

lemma cis_unit_fraction_neq_1:
  assumes "0 < N" and "d \<noteq> 0" and "\<bar>d\<bar> < int N"
  shows "cis (2 * pi * real_of_int d / real N) \<noteq> 1"
proof
  assume "cis (2 * pi * real_of_int d / real N) = 1"
  then have "Re (cis (2 * pi * real_of_int d / real N)) = Re 1" by simp
  then have "cos (2 * pi * real_of_int d / real N) = 1" by simp
  then obtain n :: int where n: "2 * pi * real_of_int d / real N = real_of_int n * 2 * pi"
    using cos_one_2pi_int by blast
  have "real_of_int d / real N = real_of_int n"
  proof -
    have "(2 * pi) * (real_of_int d / real N) = (2 * pi) * real_of_int n"
      using n by (simp add: mult.commute)
    moreover have "2 * pi \<noteq> (0::real)" by simp
    ultimately show ?thesis by (simp only: mult_cancel_left) simp
  qed
  then have "real_of_int d = real_of_int n * real N" using assms(1) by (simp add: field_simps)
  then have "real_of_int d = real_of_int (n * int N)" by simp
  then have d: "d = n * int N" by (simp only: of_int_eq_iff)
  show False
  proof (cases "n = 0")
    case True
    with d assms(2) show False by simp
  next
    case False
    then have "1 \<le> \<bar>n\<bar>" by simp
    then have "int N \<le> \<bar>n\<bar> * int N" by (simp add: mult_le_cancel_right1)
    with d assms(3) show False by (simp add: abs_mult)
  qed
qed

lemma roots_of_unity_sum:
  assumes "0 < N" and "\<bar>d\<bar> < int N"
  shows "(\<Sum>j<N. cis (2 * pi * real_of_int d / real N) ^ j) = (if d = 0 then of_nat N else 0)"
proof (cases "d = 0")
  case True
  then show ?thesis by simp
next
  case False
  let ?w = "cis (2 * pi * real_of_int d / real N)"
  have "?w \<noteq> 1" using assms False by (simp add: cis_unit_fraction_neq_1)
  then have "(\<Sum>j<N. ?w ^ j) = (?w ^ N - 1) / (?w - 1)" by (rule geometric_sum)
  moreover have "?w ^ N = 1"
  proof -
    have "?w ^ N = cis (real N * (2 * pi * real_of_int d / real N))" by (rule DeMoivre)
    also have "real N * (2 * pi * real_of_int d / real N) = 2 * pi * real_of_int d"
      using assms(1) by simp
    also have "cis (2 * pi * real_of_int d) = 1" by (rule cis_multiple_2pi) simp
    finally show ?thesis .
  qed
  ultimately show ?thesis using False by simp
qed

lemma fourier_kernel_product:
  assumes "0 < N"
  shows "cis (- 1 * (2 * pi * real j * real n / real N)) * cis (1 * (2 * pi * real k * real j / real N))
     = cis (2 * pi * real_of_int (int k - int n) / real N) ^ j"
proof -
  have "cis (2 * pi * real_of_int (int k - int n) / real N) ^ j
      = cis (real j * (2 * pi * real_of_int (int k - int n) / real N))" by (rule DeMoivre)
  moreover have "real j * (2 * pi * real_of_int (int k - int n) / real N)
      = - 1 * (2 * pi * real j * real n / real N) + 1 * (2 * pi * real k * real j / real N)"
    using assms by (simp add: field_simps)
  ultimately show ?thesis by (simp only: cis_mult)
qed

lemma fourier_sum_inverse:
  assumes "0 < N" and "k < N"
  shows "fourier_sum N 1 (fourier_sum N (- 1) x) k = of_nat N * x k"
proof -
  have "fourier_sum N 1 (fourier_sum N (- 1) x) k
      = (\<Sum>j<N. (\<Sum>n<N. x n * cis (- 1 * (2 * pi * real j * real n / real N))) *
           cis (1 * (2 * pi * real k * real j / real N)))"
    by (simp only: fourier_sum_def)
  also have "\<dots> = (\<Sum>j<N. \<Sum>n<N. x n * (cis (- 1 * (2 * pi * real j * real n / real N)) *
           cis (1 * (2 * pi * real k * real j / real N))))"
    by (simp only: sum_distrib_right mult.assoc)
  also have "\<dots> = (\<Sum>j<N. \<Sum>n<N. x n * cis (2 * pi * real_of_int (int k - int n) / real N) ^ j)"
    by (simp only: fourier_kernel_product [OF assms(1)])
  also have "\<dots> = (\<Sum>n<N. \<Sum>j<N. x n * cis (2 * pi * real_of_int (int k - int n) / real N) ^ j)"
    by (rule sum.swap)
  also have "\<dots> = (\<Sum>n<N. x n * (\<Sum>j<N. cis (2 * pi * real_of_int (int k - int n) / real N) ^ j))"
    by (simp only: sum_distrib_left)
  also have "\<dots> = (\<Sum>n<N. x n * (if int k - int n = 0 then of_nat N else 0))"
  proof (rule sum.cong)
    fix n
    assume "n \<in> {..<N}"
    then have "\<bar>int k - int n\<bar> < int N" using assms(2) by auto
    then show "x n * (\<Sum>j<N. cis (2 * pi * real_of_int (int k - int n) / real N) ^ j)
        = x n * (if int k - int n = 0 then of_nat N else 0)"
      by (simp only: roots_of_unity_sum [OF assms(1)])
  qed simp
  also have "\<dots> = (\<Sum>n<N. if n = k then x k * of_nat N else 0)"
    by (rule sum.cong) auto
  also have "\<dots> = x k * of_nat N" using assms(2) by simp
  finally show ?thesis by (simp add: mult.commute)
qed

lemma fourier_sum_cong:
  "(\<And>n. n < N \<Longrightarrow> x n = y n) \<Longrightarrow> fourier_sum N s x k = fourier_sum N s y k"
  unfolding fourier_sum_def by (rule sum.cong) simp_all

lemma compute_finite:
  assumes "list_all is_finite (real_buf m)" and "list_all is_finite (imag_buf m)"
  shows "compute dir m =
     m\<lparr>real_buf := map (\<lambda>k. Fin (Re (fourier_sum (length (real_buf m)) (direction_sign dir)
          (\<lambda>n. Complex (fin_value (real_buf m ! n)) (fin_value (imag_buf m ! n))) k)))
          [0 ..< length (real_buf m)],
       imag_buf := map (\<lambda>k. Fin (Im (fourier_sum (length (real_buf m)) (direction_sign dir)
          (\<lambda>n. Complex (fin_value (real_buf m ! n)) (fin_value (imag_buf m ! n))) k)))
          [0 ..< length (real_buf m)]\<rparr>"
  using assms by (simp add: compute_def Let_def)

lemma list_all_map_Fin: "list_all is_finite (map (\<lambda>k. Fin (f k)) ks)"
  by (simp add: list_all_iff)

lemma compute_round_trip:
  assumes "list_all is_finite (real_buf m)" and "list_all is_finite (imag_buf m)"
    and "0 < length (real_buf m)"
  shows "real_buf (compute FFT_REVERSE (compute FFT_FORWARD m)) =
     map (\<lambda>k. Fin (real (length (real_buf m)) * fin_value (real_buf m ! k)))
         [0 ..< length (real_buf m)]"
proof -
  define N where "N = length (real_buf m)"
  define z where "z = (\<lambda>n. Complex (fin_value (real_buf m ! n)) (fin_value (imag_buf m ! n)))"
  define Z where "Z = fourier_sum N (- 1) z"
  define m2 where "m2 = compute FFT_FORWARD m"
  have m2: "real_buf m2 = map (\<lambda>k. Fin (Re (Z k))) [0 ..< N]"
    "imag_buf m2 = map (\<lambda>k. Fin (Im (Z k))) [0 ..< N]"
    unfolding m2_def compute_finite [OF assms(1,2)] Z_def z_def N_def by simp_all
  have fin2: "list_all is_finite (real_buf m2)" "list_all is_finite (imag_buf m2)"
    unfolding m2 by (rule list_all_map_Fin)+
  have len2: "length (real_buf m2) = N" by (simp add: m2)
  have z2: "Complex (fin_value (real_buf m2 ! n)) (fin_value (imag_buf m2 ! n)) = Z n"
    if "n < N" for n
    using that by (simp add: m2)
  have rt: "fourier_sum N 1 (\<lambda>n. Complex (fin_value (real_buf m2 ! n))
      (fin_value (imag_buf m2 ! n))) k = of_nat N * z k" if "k < N" for k
  proof -
    have "fourier_sum N 1 (\<lambda>n. Complex (fin_value (real_buf m2 ! n))
        (fin_value (imag_buf m2 ! n))) k = fourier_sum N 1 Z k"
      by (rule fourier_sum_cong) (rule z2)
    also have "\<dots> = of_nat N * z k"
      unfolding Z_def using assms(3) that by (intro fourier_sum_inverse) (simp_all add: N_def)
    finally show ?thesis .
  qed
  have "real_buf (compute FFT_REVERSE m2) =
      map (\<lambda>k. Fin (Re (fourier_sum N 1 (\<lambda>n. Complex (fin_value (real_buf m2 ! n))
        (fin_value (imag_buf m2 ! n))) k))) [0 ..< N]"
    unfolding compute_finite [OF fin2] len2 by simp
  also have "\<dots> = map (\<lambda>k. Fin (Re (of_nat N * z k))) [0 ..< N]"
    by (rule map_cong) (simp_all add: rt)
  also have "\<dots> = map (\<lambda>k. Fin (real N * fin_value (real_buf m ! k))) [0 ..< N]"
    by (simp add: z_def)
  finally show ?thesis unfolding m2_def N_def .
qed

lemma bin_band_no_bands: "cfg_num_bands c = 0 \<Longrightarrow> bin_band c i = - 1"
  by (simp add: bin_band_def getBandIndex_def getBandIndex_from_stop)

lemma windowing_buffers:
  "real_buf (windowing m) =
     map (\<lambda>i. fmul (real_buf m ! i) (Fin (hamming (length (real_buf m)) i))) [0 ..< length (real_buf m)]"
  "imag_buf (windowing m) = imag_buf m"
  "wdrc_bands (windowing m) = wdrc_bands m"
  by (simp_all add: windowing_def)

lemma process_no_bands_output:
  assumes nb: "cfg_num_bands c = 0" and N: "0 < cfg_fft_size c"
    and sz: "nat sz \<le> cfg_fft_size c"
    and fin: "\<forall>i < nat sz. is_finite (input ! i)"
    and k: "k < nat sz"
  shows "fst (MultibandWDRC_process c m input sz) ! k =
     Fin (fin_value (input ! k) * hamming (cfg_fft_size c) k)"
proof -
  define N where "N = cfg_fft_size c"
  define x where "x = (\<lambda>i. if int i < sz then fin_value (input ! i) else 0)"
  define m1 where "m1 = m\<lparr>real_buf := map (\<lambda>i. if int i < sz then input ! i else Fin 0) [0 ..< N],
      imag_buf := replicate N (Fin 0)\<rparr>"
  define mw where "mw = windowing m1"
  have pad: "(if int i < sz then input ! i else Fin 0) = Fin (x i)" for i
  proof (cases "int i < sz")
    case True
    then have "i < nat sz" by simp
    with fin have "is_finite (input ! i)" by simp
    then obtain v where "input ! i = Fin v" by (auto simp: is_finite_iff)
    with True show ?thesis by (simp add: x_def)
  next
    case False
    then show ?thesis by (simp add: x_def)
  qed
  have m1_real: "real_buf m1 = map (\<lambda>i. Fin (x i)) [0 ..< N]"
    unfolding m1_def by (simp add: pad)
  have mw_real: "real_buf mw = map (\<lambda>i. Fin (x i * hamming N i)) [0 ..< N]"
    unfolding mw_def windowing_buffers m1_real by simp
  have mw_imag: "imag_buf mw = replicate N (Fin 0)"
    unfolding mw_def windowing_buffers m1_def by simp
  have finw: "list_all is_finite (real_buf mw)" "list_all is_finite (imag_buf mw)"
    unfolding mw_real mw_imag by (simp_all add: list_all_iff)
  have lenw: "length (real_buf mw) = N" by (simp add: mw_real)
  have loop: "band_loop c (compute FFT_FORWARD mw) 0 = compute FFT_FORWARD mw"
    by (rule band_loop_all_none) (simp add: bin_band_no_bands [OF nb])
  have lenN: "0 < length (real_buf mw)" using N by (simp add: lenw N_def)
  have rt: "real_buf (compute FFT_REVERSE (compute FFT_FORWARD mw)) =
      map (\<lambda>k. Fin (real N * fin_value (real_buf mw ! k))) [0 ..< N]"
    using compute_round_trip [OF finw lenN] by (simp add: lenw)
  have kN: "k < N" using k sz by (simp add: N_def)
  have "fst (MultibandWDRC_process c m input sz) ! k =
      fdiv (real_buf (compute FFT_REVERSE (compute FFT_FORWARD mw)) ! k) (Fin (real N))"
    using k by (simp add: MultibandWDRC_process_def Let_def loop
        m1_def [symmetric] mw_def [symmetric] N_def [symmetric])
  also have "\<dots> = fdiv (Fin (real N * (x k * hamming N k))) (Fin (real N))"
    using kN by (simp add: rt mw_real)
  also have "\<dots> = Fin (x k * hamming N k)" using N by (simp add: N_def)
  also have "x k = fin_value (input ! k)" using k by (auto simp: x_def)
  finally show ?thesis by (simp add: N_def)
qed

lemma hamming_first: "hamming N 0 = 8 / 100"
  by (simp add: hamming_def)

lemma process_output_length:
  "length (fst (MultibandWDRC_process c m input sz)) = nat sz"
  by (simp add: MultibandWDRC_process_def Let_def)

text \<open>
  C1, as amended. Without bands (every bin classifies as none) and for a block of at most
  \<open>N\<close> finite samples, the output of \<^verbatim>\<open>MultibandWDRC::process\<close> is the input multiplied
  sample by sample with the Hamming window: \<open>output[k] = input[k] * hamming N k\<close>, and in
  particular \<open>output[0] = 0.08 * input[0]\<close>. The window that the analysis applies is not
  undone by the synthesis. The arithmetic is exact; the transform is the one of the
  specification.
\<close>

theorem process_no_bands_windowed:
  assumes "cfg_num_bands c = 0" and "1 < cfg_fft_size c"
    and "nat sz \<le> cfg_fft_size c" and "nat sz \<le> length input"
    and "list_all is_finite (take (nat sz) input)"
  shows "length (fst (MultibandWDRC_process c m input sz)) = nat sz \<and>
     (\<forall>k < nat sz. fst (MultibandWDRC_process c m input sz) ! k =
        Fin (fin_value (input ! k) * hamming (cfg_fft_size c) k)) \<and>
     (0 < nat sz \<longrightarrow> fst (MultibandWDRC_process c m input sz) ! 0 =
        Fin (fin_value (input ! 0) * (8 / 100)))"
proof -
  have fin: "\<forall>i < nat sz. is_finite (input ! i)"
  proof (intro allI impI)
    fix i
    assume i: "i < nat sz"
    with assms(4) have "i < length (take (nat sz) input)" by simp
    with assms(5) have "is_finite (take (nat sz) input ! i)" by (simp add: list_all_length)
    with i show "is_finite (input ! i)" by simp
  qed
  have N: "0 < cfg_fft_size c" using assms(2) by simp
  have out: "fst (MultibandWDRC_process c m input sz) ! k =
        Fin (fin_value (input ! k) * hamming (cfg_fft_size c) k)" if "k < nat sz" for k
    using assms(1) N assms(3) fin that by (rule process_no_bands_output)
  then have "0 < nat sz \<longrightarrow> fst (MultibandWDRC_process c m input sz) ! 0 =
        Fin (fin_value (input ! 0) * (8 / 100))"
    by (simp add: hamming_first)
  with out show ?thesis by (simp add: process_output_length)
qed

lemma no_bands_config_fields:
  "cfg_num_bands no_bands_config = 0" "cfg_fft_size no_bands_config = 512"
  by (simp_all add: no_bands_config_def config_h_def FFT_SIZE_def)

theorem process_no_bands_windowed_witness:
  "cfg_num_bands no_bands_config = 0 \<and> 1 < cfg_fft_size no_bands_config \<and>
   nat 512 \<le> cfg_fft_size no_bands_config \<and> nat 512 \<le> length (replicate 512 (Fin 1)) \<and>
   list_all is_finite (take (nat 512) (replicate 512 (Fin 1))) \<and> 0 < nat 512 \<and>
   length (fst (MultibandWDRC_process no_bands_config zeroed_processor (replicate 512 (Fin 1)) 512)) = 512 \<and>
   fst (MultibandWDRC_process no_bands_config zeroed_processor (replicate 512 (Fin 1)) 512) ! 0 =
     Fin (fin_value (replicate 512 (Fin 1) ! 0) * (8 / 100))"
proof -
  have h: "cfg_num_bands no_bands_config = 0" "1 < cfg_fft_size no_bands_config"
    "nat 512 \<le> cfg_fft_size no_bands_config" "nat 512 \<le> length (replicate 512 (Fin 1))"
    "list_all is_finite (take (nat 512) (replicate 512 (Fin 1)))"
    by (simp_all add: no_bands_config_fields list_all_iff)
  have p: "0 < nat 512" by simp
  show ?thesis
    using process_no_bands_windowed [OF h, of zeroed_processor] h p by simp
qed

text \<open>
  C1 as stated fails: without bands, for the block of 512 samples \<open>1.0\<close> the first output
  sample is \<open>0.08\<close>, at a distance of \<open>0.92\<close> from the input sample, far beyond \<open>1e-4\<close>.
\<close>

theorem process_no_bands_counterexample:
  "fst (MultibandWDRC_process no_bands_config zeroed_processor (replicate 512 (Fin 1)) 512) ! 0 =
     Fin (8 / 100) \<and>
   \<not> \<bar>fin_value (fst (MultibandWDRC_process no_bands_config zeroed_processor
          (replicate 512 (Fin 1)) 512) ! 0) - fin_value (replicate 512 (Fin 1) ! 0)\<bar> < 1 / 10 ^ 4"
proof -
  have "fst (MultibandWDRC_process no_bands_config zeroed_processor (replicate 512 (Fin 1)) 512) ! 0 =
     Fin (fin_value (replicate 512 (Fin 1) ! 0) * hamming (cfg_fft_size no_bands_config) 0)"
    by (rule process_no_bands_output) (simp_all add: no_bands_config_fields)
  then have "fst (MultibandWDRC_process no_bands_config zeroed_processor (replicate 512 (Fin 1)) 512) ! 0 =
     Fin (8 / 100)"
    by (simp add: hamming_first)
  then show ?thesis by simp
qed

section \<open>Properties of the envelope detector in binary32\<close>

subsection \<open>Rounding to binary32\<close>

lemma rne_error: "\<bar>of_int (rne q) - q\<bar> \<le> 1 / 2"
proof -
  have "of_int \<lfloor>q\<rfloor> \<le> q" "q < of_int \<lfloor>q\<rfloor> + 1" by linarith+
  then show ?thesis by (auto simp: rne_def Let_def)
qed

lemma rne_unique:
  assumes "\<bar>q - of_int n\<bar> < 1 / 2"
  shows "rne q = n"
proof -
  have f: "of_int \<lfloor>q\<rfloor> \<le> q" "q < of_int \<lfloor>q\<rfloor> + 1" by linarith+
  have e: "\<bar>of_int (rne q) - q\<bar> \<le> 1 / 2" by (rule rne_error)
  have "\<bar>of_int (rne q) - (of_int n :: real)\<bar> < 1" using assms e by linarith
  then have "\<bar>of_int (rne q - n) :: real\<bar> < 1" by simp
  then have "\<bar>rne q - n\<bar> < 1" by (simp only: of_int_abs [symmetric] of_int_less_1_iff)
  then show ?thesis by simp
qed

lemma rne_of_int [simp]: "rne (of_int n) = n"
  by (rule rne_unique) simp

lemma f32_exponent_bounds:
  assumes "x \<noteq> 0"
  shows "2 powr of_int (f32_exponent x) \<le> \<bar>x\<bar>" "\<bar>x\<bar> < 2 powr (of_int (f32_exponent x) + 1)"
proof -
  have "0 < \<bar>x\<bar>" using assms by simp
  then have "\<lfloor>log 2 \<bar>x\<bar>\<rfloor> = f32_exponent x \<longleftrightarrow>
      2 powr of_int (f32_exponent x) \<le> \<bar>x\<bar> \<and> \<bar>x\<bar> < 2 powr (of_int (f32_exponent x) + 1)"
    using floor_log_eq_powr_iff [of "\<bar>x\<bar>" 2 "f32_exponent x"] by simp
  then show "2 powr of_int (f32_exponent x) \<le> \<bar>x\<bar>" "\<bar>x\<bar> < 2 powr (of_int (f32_exponent x) + 1)"
    by (simp_all add: f32_exponent_def)
qed



lemma f32_error: "\<bar>f32 x - x\<bar> \<le> \<bar>x\<bar> / 2 ^ 24"
proof (cases "x = 0")
  case True
  then show ?thesis by (simp add: f32_def)
next
  case False
  define k where "k = f32_exponent x"
  define u :: real where "u = 2 powr (of_int k - 23)"
  have u: "0 < u" by (simp add: u_def)
  have fx: "f32 x = u * of_int (rne (x / u))" using False by (simp add: f32_def k_def u_def)
  have "\<bar>f32 x - x\<bar> = u * \<bar>of_int (rne (x / u)) - x / u\<bar>"
  proof -
    have "f32 x - x = u * (of_int (rne (x / u)) - x / u)" using u by (simp add: fx algebra_simps)
    then show ?thesis using u by (simp add: abs_mult)
  qed
  also have "\<dots> \<le> u * (1 / 2)" using u rne_error [of "x / u"] by (intro mult_left_mono) simp_all
  also have "u * (1 / 2) = 2 powr of_int k / 2 ^ 24"
    by (simp add: u_def powr_diff)
  also have "\<dots> \<le> \<bar>x\<bar> / 2 ^ 24"
    using f32_exponent_bounds(1) [OF False] by (simp add: k_def divide_right_mono)
  finally show ?thesis .
qed










subsection \<open>One call and \<open>n\<close> calls with the same input\<close>

lemma f32_abs_le: "\<bar>f32 x\<bar> \<le> \<bar>x\<bar> + \<bar>x\<bar> / 2 ^ 24"
  using f32_error [of x] by linarith










subsection \<open>The coefficients and the level of silence\<close>


























subsection \<open>Convergence of the envelope\<close>





end
